theory Spec2Isabelle
  imports Complex_Main "HOL-Library.Multiset" "HOL-Library.Char_ord" "HOL-Library.List_Lexorder"
begin

section \<open>Python values used by the recommendation engine\<close>

text \<open>
  The engine is Python. Scores are floating point numbers; they are modelled as
  real numbers, so rounding, infinities and NaN are outside the model. Integers such
  as \<open>top_k\<close> are unbounded and may be negative, so they are \<open>int\<close>. Item and
  user identifiers are strings: the feature extraction that builds the profile
  dictionaries stores \<open>str(doc.get('_id'))\<close> under \<open>'_id'\<close>, and \<open>str\<close> is the
  identity on a string.
\<close>

datatype py_error = IndexError | ValueError | ZeroDivisionError

text \<open>The slice \<open>xs[:k]\<close>: a negative \<open>k\<close> counts from the end of the list.\<close>

definition py_take :: "int \<Rightarrow> 'a list \<Rightarrow> 'a list" where
  "py_take k xs =
     (if 0 \<le> k then take (nat k) xs else take (length xs - nat (- k)) xs)"

text \<open>The slice \<open>xs[a:k]\<close> for a literal \<open>a \<ge> 0\<close>.\<close>

definition py_slice :: "nat \<Rightarrow> int \<Rightarrow> 'a list \<Rightarrow> 'a list" where
  "py_slice a k xs = drop a (py_take k xs)"

text \<open>
  \<open>list.sort(key=..., reverse=True)\<close> and \<open>sorted(..., reverse=True)\<close> are stable:
  entries with equal keys keep their order. On real keys this is the stable
  ascending sort by the negated key.
\<close>

definition sort_desc :: "('a \<times> real) list \<Rightarrow> ('a \<times> real) list" where
  "sort_desc xs = sort_key (\<lambda>x. - snd x) xs"

text \<open>
  A \<open>dict\<close> is an association list with distinct keys in insertion order.
  Assigning to a key that is present replaces its value in place.
\<close>

type_synonym ('k, 'v) dict = "('k \<times> 'v) list"

fun dict_set :: "('k, 'v) dict \<Rightarrow> 'k \<Rightarrow> 'v \<Rightarrow> ('k, 'v) dict" where
  "dict_set [] k v = [(k, v)]"
| "dict_set ((k', v') # d) k v =
     (if k' = k then (k, v) # d else (k', v') # dict_set d k v)"

definition dict_keys :: "('k, 'v) dict \<Rightarrow> 'k list" where
  "dict_keys d = map fst d"

definition dict_has :: "('k, 'v) dict \<Rightarrow> 'k \<Rightarrow> bool" where
  "dict_has d k = (map_of d k \<noteq> None)"

section \<open>hybrid\_ensemble.py: score normalisation and weighted fusion\<close>

text \<open>\<open>HybridEnsemble._normalize_scores\<close>: min-max scaling of a list of (id, score).\<close>

definition normalize_scores :: "('k \<times> real) list \<Rightarrow> ('k, real) dict" where
  "normalize_scores scores =
     (if scores = [] then []
      else
        let score_values = map snd scores;
            min_score = Min (set score_values);
            max_score = Max (set score_values)
        in if max_score = min_score
           then fold (\<lambda>(item_id, _) d. dict_set d item_id (1/2)) scores []
           else fold (\<lambda>(item_id, score) d.
                  dict_set d item_id ((score - min_score) / (max_score - min_score)))
                  scores [])"

text \<open>The dictionaries \<open>self.weights\<close> and \<open>self.models_ready\<close> have three fixed keys.\<close>

record weights =
  w_content :: real
  w_collaborative :: real
  w_gnn :: real

record ready =
  r_content :: bool
  r_collaborative :: bool
  r_gnn :: bool

text \<open>
  One iteration of the loop of \<open>HybridEnsemble._weighted_ensemble\<close>: the pair
  (\<open>score\<close>, \<open>weight_sum\<close>) after the three guarded additions, then the final
  score of the id.
\<close>

definition add_model ::
  "bool \<Rightarrow> real \<Rightarrow> ('k, real) dict \<Rightarrow> 'k \<Rightarrow> real \<times> real \<Rightarrow> real \<times> real" where
  "add_model is_ready w scores item_id acc =
     (case map_of scores item_id of
        Some v \<Rightarrow> if is_ready then (fst acc + w * v, snd acc + w) else acc
      | None \<Rightarrow> acc)"

definition weighted_score ::
  "weights \<Rightarrow> ready \<Rightarrow> ('k, real) dict \<Rightarrow> ('k, real) dict \<Rightarrow> ('k, real) dict \<Rightarrow> 'k \<Rightarrow> real" where
  "weighted_score w r content_scores cf_scores gnn_scores item_id =
     (let acc0 = (0, 0);
          acc1 = add_model (r_content r) (w_content w) content_scores item_id acc0;
          acc2 = add_model (r_collaborative r) (w_collaborative w) cf_scores item_id acc1;
          acc3 = add_model (r_gnn r) (w_gnn w) gnn_scores item_id acc2
      in if snd acc3 > 0 then fst acc3 / snd acc3 else fst acc3)"

text \<open>
  \<open>all_items\<close> is a Python set; the order in which a set is iterated is not
  specified. The model iterates in order of first occurrence. The order only decides
  how later sorting breaks ties between equal final scores.
\<close>

definition weighted_ensemble ::
  "weights \<Rightarrow> ready \<Rightarrow> ('k, real) dict \<Rightarrow> ('k, real) dict \<Rightarrow> ('k, real) dict \<Rightarrow> ('k, real) dict" where
  "weighted_ensemble w r content_scores cf_scores gnn_scores =
     (let all_items = remdups (dict_keys content_scores @ dict_keys cf_scores @ dict_keys gnn_scores)
      in map (\<lambda>item_id. (item_id, weighted_score w r content_scores cf_scores gnn_scores item_id))
           all_items)"


text \<open>The weights and readiness flags set by \<open>HybridEnsemble.__init__\<close>.\<close>

definition default_weights :: weights where
  "default_weights = \<lparr>w_content = 3/10, w_collaborative = 4/10, w_gnn = 3/10\<rparr>"

definition initial_ready :: ready where
  "initial_ready = \<lparr>r_content = True, r_collaborative = False, r_gnn = False\<rparr>"

section \<open>collaborative\_filter.py: the latent factor model\<close>

text \<open>
  Indexing a numpy array with a non-negative index raises \<open>IndexError\<close> out of
  range; the product \<open>a @ b\<close> of two vectors raises \<open>ValueError\<close> when their
  lengths differ. A comprehension or loop that raises stops at the first failure.
\<close>

text \<open>Sequencing of two steps of which the first may raise.\<close>

definition bind_err :: "py_error + 'a \<Rightarrow> ('a \<Rightarrow> py_error + 'b) \<Rightarrow> py_error + 'b" where
  "bind_err r f = (case r of Inl e \<Rightarrow> Inl e | Inr x \<Rightarrow> f x)"

definition np_index :: "'a list \<Rightarrow> nat \<Rightarrow> py_error + 'a" where
  "np_index xs i = (if i < length xs then Inr (xs ! i) else Inl IndexError)"

definition np_dot :: "real list \<Rightarrow> real list \<Rightarrow> py_error + real" where
  "np_dot a b =
     (if length a = length b then Inr (sum_list (map2 (*) a b)) else Inl ValueError)"

fun traverse :: "('a \<Rightarrow> py_error + 'b) \<Rightarrow> 'a list \<Rightarrow> py_error + 'b list" where
  "traverse f [] = Inr []"
| "traverse f (x # xs) =
     (case f x of
        Inl e \<Rightarrow> Inl e
      | Inr y \<Rightarrow> (case traverse f xs of Inl e \<Rightarrow> Inl e | Inr ys \<Rightarrow> Inr (y # ys)))"

text \<open>
  The fields of \<open>CollaborativeFilter\<close> that prediction reads. The factor and bias
  arrays are \<open>None\<close> until training sets them.
\<close>

record cf_model =
  is_trained :: bool
  global_bias :: real
  user_bias :: "real list option"
  item_bias :: "real list option"
  user_factors :: "real list list option"
  item_factors :: "real list list option"
  user_id_map :: "(string, nat) dict"
  item_id_map :: "(string, nat) dict"
  reverse_item_map :: "(nat, string) dict"

text \<open>The model built by \<open>CollaborativeFilter.__init__\<close>.\<close>

definition cf_init :: cf_model where
  "cf_init = \<lparr>is_trained = False, global_bias = 0, user_bias = None, item_bias = None,
     user_factors = None, item_factors = None, user_id_map = [], item_id_map = [],
     reverse_item_map = []\<rparr>"

text \<open>The body of the loop of \<open>CollaborativeFilter.predict\<close> for a known user.\<close>

definition predict_known :: "cf_model \<Rightarrow> nat \<Rightarrow> string \<Rightarrow> py_error + real" where
  "predict_known m user_idx item_id =
     (case map_of (item_id_map m) item_id of
        None \<Rightarrow>
          (case user_bias m of
             Some ub \<Rightarrow> bind_err (np_index ub user_idx) (\<lambda>bu. Inr (global_bias m + bu))
           | None \<Rightarrow> Inr (global_bias m))
      | Some item_idx \<Rightarrow>
          (case (user_bias m, item_bias m, user_factors m, item_factors m) of
             (Some ub, Some ib, Some uf, Some itf) \<Rightarrow>
               bind_err (np_index ub user_idx) (\<lambda>bu.
               bind_err (np_index ib item_idx) (\<lambda>bi.
               bind_err (np_index uf user_idx) (\<lambda>urow.
               bind_err (np_index itf item_idx) (\<lambda>irow.
               bind_err (np_dot urow irow) (\<lambda>d.
                 Inr (global_bias m + bu + bi + d))))))
           | _ \<Rightarrow> Inr (global_bias m)))"

text \<open>The element of the cold-start comprehension for an unknown user.\<close>

definition predict_cold :: "cf_model \<Rightarrow> real list \<Rightarrow> string \<Rightarrow> py_error + real" where
  "predict_cold m ib item_id =
     (case map_of (item_id_map m) item_id of
        Some item_idx \<Rightarrow> bind_err (np_index ib item_idx) (\<lambda>bi. Inr (global_bias m + bi))
      | None \<Rightarrow> Inr (global_bias m))"

definition predict :: "cf_model \<Rightarrow> string \<Rightarrow> string list \<Rightarrow> py_error + real list" where
  "predict m user_id item_ids =
     (if \<not> is_trained m then Inr (replicate (length item_ids) 0)
      else
        case map_of (user_id_map m) user_id of
          None \<Rightarrow>
            (case item_bias m of
               Some ib \<Rightarrow> traverse (predict_cold m ib) item_ids
             | None \<Rightarrow> Inr (map (\<lambda>_. global_bias m) item_ids))
        | Some user_idx \<Rightarrow> traverse (predict_known m user_idx) item_ids)"

definition recommend_items ::
  "cf_model \<Rightarrow> string \<Rightarrow> string list \<Rightarrow> int \<Rightarrow> py_error + (string \<times> real) list" where
  "recommend_items m user_id item_candidates top_k =
     (if item_candidates = [] then Inr []
      else bind_err (predict m user_id item_candidates) (\<lambda>scores.
             Inr (py_take top_k (sort_desc (zip item_candidates scores)))))"

text \<open>
  \<open>np.argsort\<close>: the indices of an array in ascending order of their values. The
  model is the stable sort; numpy's default sort leaves the order of equal values
  open.
\<close>

definition argsort :: "real list \<Rightarrow> nat list" where
  "argsort xs = sort_key (\<lambda>i. xs ! i) [0..<length xs]"

definition get_similar_items ::
  "cf_model \<Rightarrow> string \<Rightarrow> int \<Rightarrow> py_error + (string \<times> real) list" where
  "get_similar_items m item_id top_k =
     (case (is_trained m, map_of (item_id_map m) item_id, item_factors m) of
        (True, Some item_idx, Some itf) \<Rightarrow>
          bind_err (np_index itf item_idx) (\<lambda>item_vector.
          bind_err (traverse (\<lambda>row. np_dot row item_vector) itf) (\<lambda>similarities.
            let similar_indices = py_slice 1 (top_k + 1) (rev (argsort similarities))
            in Inr (concat (map (\<lambda>idx.
                      case map_of (reverse_item_map m) idx of
                        Some name \<Rightarrow> [(name, similarities ! idx)]
                      | None \<Rightarrow> [])
                    similar_indices))))
      | _ \<Rightarrow> Inr [])"

text \<open>
  What training leaves behind (\<open>train\<close>, \<open>_train_svd\<close>, \<open>_train_als\<close>; lemma
  \<open>train_trained_ok\<close> below): the flag
  is set, the four arrays exist, the bias arrays are \<open>np.zeros(n_users)\<close> and
  \<open>np.zeros(n_items)\<close> with entries overwritten, the factor matrices have one row
  per user and per item and a common number of columns, and the id maps enumerate
  the sorted ids, so every index is below the number of rows.
\<close>

definition trained_ok :: "cf_model \<Rightarrow> bool" where
  "trained_ok m =
     (is_trained m \<and>
      (case (user_bias m, item_bias m, user_factors m, item_factors m) of
         (Some ub, Some ib, Some uf, Some itf) \<Rightarrow>
           length uf = length ub \<and> length itf = length ib \<and>
           (\<forall>(u, i) \<in> set (user_id_map m). i < length ub) \<and>
           (\<forall>(t, j) \<in> set (item_id_map m). j < length ib) \<and>
           (\<forall>a \<in> set uf. \<forall>b \<in> set itf. length a = length b)
       | _ \<Rightarrow> False))"

text \<open>The model is either untrained or as training leaves it.\<close>

definition cf_inv :: "cf_model \<Rightarrow> bool" where
  "cf_inv m = (is_trained m \<longrightarrow> trained_ok m)"

text \<open>
  The documented prediction policy, written from the specification: the score of
  one item for a user absent from the index, and for the user with index \<open>ui\<close>.
\<close>

definition cold_score :: "cf_model \<Rightarrow> string \<Rightarrow> real" where
  "cold_score m item_id =
     (case map_of (item_id_map m) item_id of
        Some j \<Rightarrow> global_bias m + the (item_bias m) ! j
      | None \<Rightarrow> global_bias m)"

definition known_score :: "cf_model \<Rightarrow> nat \<Rightarrow> string \<Rightarrow> real" where
  "known_score m ui item_id =
     (case map_of (item_id_map m) item_id of
        Some j \<Rightarrow> global_bias m + the (user_bias m) ! ui + the (item_bias m) ! j +
                  sum_list (map2 (*) (the (user_factors m) ! ui) (the (item_factors m) ! j))
      | None \<Rightarrow> global_bias m + the (user_bias m) ! ui)"

text \<open>
  A trained model with two users and two items. Both users rated item \<open>a\<close> with 1
  and item \<open>b\<close> with 2, so the global bias is 3/2, the item biases are -1/2 and
  1/2, and the factor vector of \<open>b\<close> is twice that of \<open>a\<close>, as in a rank-one
  factorisation of that matrix.
\<close>

definition trained_example :: cf_model where
  "trained_example = \<lparr>is_trained = True, global_bias = 3/2, user_bias = Some [0, 0], item_bias = Some [-1/2, 1/2],
     user_factors = Some [[1], [1]], item_factors = Some [[1], [2]],
     user_id_map = [(''u1'', 0), (''u2'', 1)], item_id_map = [(''a'', 0), (''b'', 1)],
     reverse_item_map = [(0, ''a''), (1, ''b'')]\<rparr>"

section \<open>gnn\_recommender.py: the graph model at request time\<close>

text \<open>
  The forward pass of the graph network is numerical library code. The model keeps
  what \<open>GNNRecommender.recommend_items\<close> reads: the flags, the id maps, and the
  dot product of the propagated embeddings of a user index and an item index as a
  parameter, once for each of the two model types.
\<close>

record gnn_model =
  gnn_is_trained :: bool
  torch_available :: bool
  has_model :: bool
  model_type :: string
  gnn_user_id_map :: "(string, nat) dict"
  gnn_item_id_map :: "(string, nat) dict"
  lightgcn_score :: "nat \<Rightarrow> nat \<Rightarrow> real"
  graphsage_score :: "nat \<Rightarrow> nat \<Rightarrow> real"

text \<open>The list \<open>scores\<close> built inside \<open>torch.no_grad()\<close>, before sorting.\<close>

definition gnn_score_list :: "gnn_model \<Rightarrow> nat \<Rightarrow> string list \<Rightarrow> (string \<times> real) list" where
  "gnn_score_list g user_idx item_candidates =
     (if model_type g = ''lightgcn'' \<and> has_model g then
        concat (map (\<lambda>item_id.
          case map_of (gnn_item_id_map g) item_id of
            Some item_idx \<Rightarrow> [(item_id, lightgcn_score g user_idx item_idx)]
          | None \<Rightarrow> []) item_candidates)
      else if model_type g = ''graphsage'' \<and> has_model g then
        concat (map (\<lambda>item_id.
          case map_of (gnn_item_id_map g) item_id of
            Some item_idx \<Rightarrow>
              [(item_id, graphsage_score g user_idx (item_idx + length (gnn_user_id_map g)))]
          | None \<Rightarrow> []) item_candidates)
      else [])"

definition gnn_recommend_items ::
  "gnn_model \<Rightarrow> string \<Rightarrow> string list \<Rightarrow> int \<Rightarrow> (string \<times> real) list" where
  "gnn_recommend_items g user_id item_candidates top_k =
     (if \<not> gnn_is_trained g \<or> \<not> torch_available g then []
      else
        case map_of (gnn_user_id_map g) user_id of
          None \<Rightarrow> []
        | Some user_idx \<Rightarrow> py_take top_k (sort_desc (gnn_score_list g user_idx item_candidates)))"

text \<open>The model built by \<open>GNNRecommender.__init__\<close>, without a network.\<close>

definition gnn_init :: gnn_model where
  "gnn_init = \<lparr>gnn_is_trained = False, torch_available = False, has_model = False,
     model_type = ''lightgcn'', gnn_user_id_map = [], gnn_item_id_map = [],
     lightgcn_score = (\<lambda>_ _. 0), graphsage_score = (\<lambda>_ _. 0)\<rparr>"

section \<open>content\_based.py: profile vectors and content scores\<close>

text \<open>
  Profiles are dictionaries read with \<open>.get(key, default)\<close>. A record holds the keys
  the engine reads; a key that may be absent is an \<open>option\<close>.
\<close>

record user_data =
  interests :: "string list option"
  skill_level :: "string option"
  streak :: "real option"
  goal_categories :: "string list option"

text \<open>The field \<open>doc_id\<close> is the key \<open>'_id'\<close>.\<close>

record item_data =
  doc_id :: string
  domains :: "string list option"
  success_rate :: "real option"
  active_mentees :: "real option"
  subject :: "string option"
  level :: "string option"
  duration :: "real option"
  current_participants :: "real option"
  max_participants :: "real option"
  category :: "string option"
  members :: "string list option"
  max_members :: "real option"

text \<open>\<open>d.get(key, default)\<close>.\<close>

definition get_or :: "'a option \<Rightarrow> 'a \<Rightarrow> 'a" where
  "get_or v d = (case v of Some x \<Rightarrow> x | None \<Rightarrow> d)"

definition subjects :: "string list" where
  "subjects = [''mathematics'', ''programming'', ''data-science'', ''machine-learning'',
     ''web-development'', ''algorithms'', ''databases'', ''other'']"

definition categories :: "string list" where
  "categories = [''skill-development'', ''career'', ''academic'', ''project'', ''certification'']"

text \<open>\<open>skill_mapping.get(name, 0.66)\<close> and \<open>level_mapping.get(name, 0.66)\<close>.\<close>

definition skill_mapping :: "string \<Rightarrow> real" where
  "skill_mapping name =
     (if name = ''beginner'' then 33/100
      else if name = ''intermediate'' then 66/100
      else if name = ''advanced'' then 1
      else 66/100)"

definition one_hot :: "string list \<Rightarrow> (string \<Rightarrow> bool) \<Rightarrow> real list" where
  "one_hot names p = map (\<lambda>n. if p n then 1 else 0) names"

definition build_user_profile :: "user_data \<Rightarrow> real list" where
  "build_user_profile u =
     (let user_subjects = get_or (interests u) [];
          subject_features = one_hot subjects (\<lambda>subj. subj \<in> set user_subjects);
          skill = skill_mapping (get_or (skill_level u) ''intermediate'');
          streak_n = get_or (streak u) 0 / 100;
          goal_cats = get_or (goal_categories u) [];
          goal_features = one_hot categories (\<lambda>cat. cat \<in> set goal_cats)
      in subject_features @ [skill] @ [min streak_n 1] @ goal_features)"

definition build_mentor_profile :: "item_data \<Rightarrow> real list" where
  "build_mentor_profile mentor =
     (let mentor_domains = get_or (domains mentor) [];
          domain_features = one_hot subjects (\<lambda>subj. subj \<in> set mentor_domains);
          rate = get_or (success_rate mentor) (8/10);
          mentees = get_or (active_mentees mentor) 0;
          availability_score = max 0 (1 - mentees / 10)
      in domain_features @ [1] @ [rate] @ [availability_score] @ replicate 5 0)"

definition build_session_profile :: "item_data \<Rightarrow> real list" where
  "build_session_profile session =
     (let session_subject = get_or (subject session) ''other'';
          subject_features = one_hot subjects (\<lambda>subj. subj = session_subject);
          lvl = skill_mapping (get_or (level session) ''intermediate'');
          dur = get_or (duration session) 1 / 4;
          participants = get_or (current_participants session) 0;
          popularity = min (participants / 20) 1
      in subject_features @ [lvl] @ [min dur 1] @ [popularity] @ replicate 4 0)"

text \<open>
  \<open>sklearn.metrics.pairwise.cosine_similarity\<close> on two row vectors of equal length:
  each vector is divided by its Euclidean norm, a zero norm being replaced by 1, and
  the dot product of the results is returned.
\<close>

definition dot :: "real list \<Rightarrow> real list \<Rightarrow> real" where
  "dot a b = sum_list (map2 (*) a b)"

definition row_norm :: "real list \<Rightarrow> real" where
  "row_norm a = (let n = sqrt (dot a a) in if n = 0 then 1 else n)"

definition cosine_similarity :: "real list \<Rightarrow> real list \<Rightarrow> real" where
  "cosine_similarity a b = dot (map (\<lambda>x. x / row_norm a) a) (map (\<lambda>x. x / row_norm b) b)"

definition calculate_similarity :: "real list \<Rightarrow> real list \<Rightarrow> real" where
  "calculate_similarity profile1 profile2 =
     (let min_len = min (length profile1) (length profile2);
          p1 = (if length profile1 \<noteq> length profile2 then take min_len profile1 else profile1);
          p2 = (if length profile1 \<noteq> length profile2 then take min_len profile2 else profile2)
      in max 0 (cosine_similarity p1 p2))"

definition mentor_score :: "user_data \<Rightarrow> item_data \<Rightarrow> real" where
  "mentor_score u mentor =
     (let similarity = calculate_similarity (build_user_profile u) (build_mentor_profile mentor);
          success_boost = get_or (success_rate mentor) (8/10) * (2/10)
      in similarity * (8/10) + success_boost)"

definition content_recommend_mentors ::
  "user_data \<Rightarrow> item_data list \<Rightarrow> int \<Rightarrow> (string \<times> real) list" where
  "content_recommend_mentors u mentor_list top_k =
     py_take top_k (sort_desc (map (\<lambda>mentor. (doc_id mentor, mentor_score u mentor)) mentor_list))"

text \<open>
  The division by \<open>max_participants\<close> raises \<open>ZeroDivisionError\<close> when the session
  carries the value 0; the loop stops there.
\<close>

definition session_score :: "user_data \<Rightarrow> item_data \<Rightarrow> py_error + real" where
  "session_score u session =
     (let similarity = calculate_similarity (build_user_profile u) (build_session_profile session);
          max_p = get_or (max_participants session) 20;
          cur_p = get_or (current_participants session) 0
      in if max_p = 0 then Inl ZeroDivisionError
         else
           let availability = 1 - cur_p / max_p
           in Inr (similarity * (9/10) + availability * (1/10)))"

definition content_recommend_sessions ::
  "user_data \<Rightarrow> item_data list \<Rightarrow> int \<Rightarrow> py_error + (string \<times> real) list" where
  "content_recommend_sessions u session_list top_k =
     bind_err
       (traverse (\<lambda>session.
          bind_err (session_score u session) (\<lambda>total. Inr (doc_id session, total)))
          session_list)
       (\<lambda>recommendations. Inr (py_take top_k (sort_desc recommendations)))"

text \<open>\<open>str.lower\<close> on the ASCII letters.\<close>

definition lower_char :: "char \<Rightarrow> char" where
  "lower_char c =
     (let n = (of_char c :: nat) in if 65 \<le> n \<and> n \<le> 90 then char_of (n + 32) else c)"

definition lower :: "string \<Rightarrow> string" where
  "lower s = map lower_char s"

definition group_score :: "user_data \<Rightarrow> item_data \<Rightarrow> real" where
  "group_score u grp =
     (let cat = lower (get_or (category grp) ''General'');
          category_match = (if cat \<in> set (get_or (interests u) []) then 1 else 1/2);
          member_count = real (length (get_or (members grp) []));
          activity_score = min (member_count / 30) 1
      in category_match * (6/10) + activity_score * (4/10))"

definition group_available :: "item_data \<Rightarrow> bool" where
  "group_available grp =
     (real (length (get_or (members grp) [])) < get_or (max_members grp) 50)"

definition content_recommend_groups ::
  "user_data \<Rightarrow> item_data list \<Rightarrow> int \<Rightarrow> (string \<times> real) list" where
  "content_recommend_groups u group_list top_k =
     py_take top_k (sort_desc
       (map (\<lambda>grp. (doc_id grp, group_score u grp)) (filter group_available group_list)))"

section \<open>content\_based.py: explanations\<close>

text \<open>Decimal digits of a natural number, as \<open>str\<close> and f-strings print it.\<close>

function show_nat :: "nat \<Rightarrow> string" where
  "show_nat n =
     (if n < 10 then [char_of (48 + n)]
      else show_nat (n div 10) @ [char_of (48 + n mod 10)])"
  by pat_completeness auto
termination
  by (relation "measure id") auto

declare show_nat.simps [simp del]

text \<open>\<open>sep.join(parts)\<close>.\<close>

fun join :: "string \<Rightarrow> string list \<Rightarrow> string" where
  "join sep [] = []"
| "join sep [x] = x"
| "join sep (x # y # ys) = x @ sep @ join sep (y # ys)"

text \<open>\<open>str\<close> of an optional string: \<open>None\<close> prints as the word None.\<close>

definition str_opt :: "string option \<Rightarrow> string" where
  "str_opt v = (case v of Some s \<Rightarrow> s | None \<Rightarrow> ''None'')"

text \<open>The separator between the parts of an explanation: a bullet between spaces, in UTF-8.\<close>

definition bullet :: string where
  "bullet = [CHR '' '', CHR 0xE2, CHR 0x80, CHR 0xA2, CHR '' '']"

text \<open>
  The empty dictionary \<open>{}\<close> that \<open>next(..., {})\<close> yields when no candidate has the
  id. The explanation never reads the id of the item.
\<close>

definition empty_item :: item_data where
  "empty_item = \<lparr>doc_id = [], domains = None, success_rate = None, active_mentees = None,
     subject = None, level = None, duration = None, current_participants = None,
     max_participants = None, category = None, members = None, max_members = None\<rparr>"

text \<open>
  \<open>ContentBasedRecommender.explain_recommendation\<close>. The common topics are a Python
  set, listed here in the order of the user's interests.
\<close>

definition explain_recommendation :: "user_data \<Rightarrow> item_data \<Rightarrow> string \<Rightarrow> string" where
  "explain_recommendation u item item_type =
     (let explanations =
        (if item_type = ''mentor'' then
           (let common_topics =
                  remdups (filter (\<lambda>t. t \<in> set (get_or (domains item) [])) (get_or (interests u) []));
                rate = get_or (success_rate item) 0
            in (if common_topics \<noteq> [] then [''Expertise in '' @ join '', '' (take 2 common_topics)]
                else [])
               @ (if rate > 8/10 then [show_nat (nat \<lfloor>rate * 100\<rfloor>) @ ''% success rate'']
                  else []))
         else if item_type = ''session'' then
           (if skill_level u = level item
            then [''Matches your '' @ str_opt (level item) @ '' level''] else [])
           @ (case subject item of
                Some s \<Rightarrow>
                  if s \<in> set (get_or (interests u) [])
                  then [''Based on your interest in '' @ s] else []
              | None \<Rightarrow> [])
         else if item_type = ''group'' then
           [''Active group with '' @ show_nat (length (get_or (members item) [])) @ '' members'']
         else [])
      in if explanations \<noteq> [] then join bullet explanations else ''Recommended for you'')"

section \<open>hybrid\_ensemble.py: the coordinator\<close>

record ensemble =
  ensemble_method :: string
  collaborative :: cf_model
  gnn :: gnn_model
  weights :: weights
  models_ready :: ready

text \<open>The coordinator built by \<open>HybridEnsemble.__init__\<close>.\<close>

definition ensemble_init :: "string \<Rightarrow> ensemble" where
  "ensemble_init method = \<lparr>ensemble_method = method, collaborative = cf_init, gnn = gnn_init,
     weights = default_weights, models_ready = initial_ready\<rparr>"

text \<open>\<open>HybridEnsemble._context_aware_routing\<close>.\<close>

definition context_aware_routing :: "user_data \<Rightarrow> string \<Rightarrow> weights" where
  "context_aware_routing u recommendation_type =
     (let user_activity = get_or (streak u) 0;
          is_new_user = user_activity < 5;
          w1 = (if is_new_user
                then \<lparr>w_content = 7/10, w_collaborative = 2/10, w_gnn = 1/10\<rparr>
                else if user_activity > 30
                then \<lparr>w_content = 2/10, w_collaborative = 4/10, w_gnn = 4/10\<rparr>
                else \<lparr>w_content = 3/10, w_collaborative = 4/10, w_gnn = 3/10\<rparr>);
          w2 = (if recommendation_type = ''mentor''
                then w1\<lparr>w_content := w_content w1 + 1/10, w_gnn := w_gnn w1 - 1/10\<rparr>
                else if recommendation_type = ''group''
                then w1\<lparr>w_gnn := w_gnn w1 + 15/100, w_content := w_content w1 - 15/100\<rparr>
                else w1);
          total = w_content w2 + w_collaborative w2 + w_gnn w2
      in \<lparr>w_content = w_content w2 / total,
          w_collaborative = w_collaborative w2 / total,
          w_gnn = w_gnn w2 / total\<rparr>)"

text \<open>
  The four statements of the context-aware branch: the stored weights are saved,
  replaced by the adaptive weights, used by the fusion, and put back. The result is
  the fused dictionary and the coordinator after the last statement.
\<close>

definition context_aware_fusion ::
  "ensemble \<Rightarrow> user_data \<Rightarrow> string \<Rightarrow> (string, real) dict \<Rightarrow> (string, real) dict \<Rightarrow>
     (string, real) dict \<Rightarrow> (string, real) dict \<times> ensemble" where
  "context_aware_fusion s u recommendation_type content_scores cf_scores gnn_scores =
     (let adaptive_weights = context_aware_routing u recommendation_type;
          old_weights = weights s;
          s1 = s\<lparr>weights := adaptive_weights\<rparr>;
          final_scores = weighted_ensemble (weights s1) (models_ready s1)
                           content_scores cf_scores gnn_scores;
          s2 = s1\<lparr>weights := old_weights\<rparr>
      in (final_scores, s2))"

text \<open>
  The three stages of \<open>HybridEnsemble._cascading_ensemble\<close>: the candidate ids after
  the graph stage, after the collaborative stage, and the final content ranking.
\<close>

definition cascade_stage1 :: "ensemble \<Rightarrow> string \<Rightarrow> string list \<Rightarrow> int \<Rightarrow> string list" where
  "cascade_stage1 s user_id item_candidates top_k =
     (if r_gnn (models_ready s)
      then map fst (gnn_recommend_items (gnn s) user_id item_candidates
                      (min (int (length item_candidates)) (top_k * 5)))
      else py_take (top_k * 3) item_candidates)"

definition cascade_stage2 ::
  "ensemble \<Rightarrow> string \<Rightarrow> string list \<Rightarrow> int \<Rightarrow> py_error + string list" where
  "cascade_stage2 s user_id candidate_ids top_k =
     (if r_collaborative (models_ready s) \<and> candidate_ids \<noteq> []
      then bind_err (recommend_items (collaborative s) user_id candidate_ids (top_k * 2))
             (\<lambda>cf_recommendations. Inr (map fst cf_recommendations))
      else Inr candidate_ids)"

definition cascade_stage3 ::
  "user_data \<Rightarrow> item_data list \<Rightarrow> string list \<Rightarrow> int \<Rightarrow> py_error + (string \<times> real) list" where
  "cascade_stage3 u items_data candidate_ids top_k =
     (let candidate_items_data = filter (\<lambda>item. doc_id item \<in> set candidate_ids) items_data
      in case candidate_items_data of
           first # _ \<Rightarrow>
             if domains first \<noteq> None
             then Inr (content_recommend_mentors u candidate_items_data top_k)
             else if subject first \<noteq> None
             then content_recommend_sessions u candidate_items_data top_k
             else Inr (content_recommend_groups u candidate_items_data top_k)
         | [] \<Rightarrow> Inr (map (\<lambda>cid. (cid, 1/2)) (py_take top_k candidate_ids)))"

definition cascading_ensemble ::
  "ensemble \<Rightarrow> string \<Rightarrow> string list \<Rightarrow> user_data \<Rightarrow> item_data list \<Rightarrow> int \<Rightarrow>
     py_error + (string \<times> real) list" where
  "cascading_ensemble s user_id item_candidates u items_data top_k =
     bind_err (cascade_stage2 s user_id (cascade_stage1 s user_id item_candidates top_k) top_k)
       (\<lambda>candidate_ids. cascade_stage3 u items_data candidate_ids top_k)"

text \<open>
  The parts shared by the three recommend operations: the collaborative and graph
  score dictionaries, and the final loop that attaches an explanation to each ranked
  pair, looking the candidate up by id.
\<close>

definition cf_score_dict :: "ensemble \<Rightarrow> string \<Rightarrow> string list \<Rightarrow> py_error + (string, real) dict" where
  "cf_score_dict s user_id ids =
     (if r_collaborative (models_ready s)
      then bind_err (recommend_items (collaborative s) user_id ids (int (length ids)))
             (\<lambda>cf_recs. Inr (normalize_scores cf_recs))
      else Inr [])"

definition gnn_score_dict :: "ensemble \<Rightarrow> string \<Rightarrow> string list \<Rightarrow> (string, real) dict" where
  "gnn_score_dict s user_id ids =
     (if r_gnn (models_ready s)
      then normalize_scores (gnn_recommend_items (gnn s) user_id ids (int (length ids)))
      else [])"

definition candidate_data :: "item_data list \<Rightarrow> string \<Rightarrow> item_data" where
  "candidate_data candidates cid =
     (case find (\<lambda>c. doc_id c = cid) candidates of Some c \<Rightarrow> c | None \<Rightarrow> empty_item)"

definition add_explanations ::
  "user_data \<Rightarrow> item_data list \<Rightarrow> string \<Rightarrow> (string \<times> real) list \<Rightarrow> (string \<times> real \<times> string) list" where
  "add_explanations u candidates item_type ranked =
     map (\<lambda>(cid, score).
            (cid, score, explain_recommendation u (candidate_data candidates cid) item_type))
         ranked"

text \<open>
  The recommend operations return the outcome, a result list or the exception that
  left the call, together with the coordinator as the call leaves it. In
  \<open>recommend_mentors\<close> the cascading branch returns from inside the chain of
  method tests; the method names being distinct, it is tested first here and the
  three other branches share the ranking and explanation code that follows them.
\<close>

type_synonym outcome = "(py_error + (string \<times> real \<times> string) list) \<times> ensemble"

definition recommend_mentors ::
  "ensemble \<Rightarrow> string \<Rightarrow> user_data \<Rightarrow> item_data list \<Rightarrow> int \<Rightarrow> outcome" where
  "recommend_mentors s user_id u mentor_candidates top_k =
     (if mentor_candidates = [] then (Inr [], s)
      else
        let mentor_ids = map doc_id mentor_candidates;
            content_recs = content_recommend_mentors u mentor_candidates
                             (int (length mentor_candidates));
            content_scores = normalize_scores content_recs
        in case cf_score_dict s user_id mentor_ids of
             Inl e \<Rightarrow> (Inl e, s)
           | Inr cf_scores \<Rightarrow>
               let gnn_scores = gnn_score_dict s user_id mentor_ids
               in if ensemble_method s = ''cascading'' then
                    (case cascading_ensemble s user_id mentor_ids u mentor_candidates top_k of
                       Inl e \<Rightarrow> (Inl e, s)
                     | Inr cascading_recs \<Rightarrow>
                         (Inr (add_explanations u mentor_candidates ''mentor'' cascading_recs), s))
                  else
                    let (final_scores, s') =
                          (if ensemble_method s = ''weighted''
                           then (weighted_ensemble (weights s) (models_ready s)
                                   content_scores cf_scores gnn_scores, s)
                           else if ensemble_method s = ''context_aware''
                           then context_aware_fusion s u ''mentor'' content_scores cf_scores gnn_scores
                           else (content_scores, s));
                        ranked_mentors = py_take top_k (sort_desc final_scores)
                    in (Inr (add_explanations u mentor_candidates ''mentor'' ranked_mentors), s'))"

definition recommend_sessions ::
  "ensemble \<Rightarrow> string \<Rightarrow> user_data \<Rightarrow> item_data list \<Rightarrow> int \<Rightarrow> outcome" where
  "recommend_sessions s user_id u session_candidates top_k =
     (if session_candidates = [] then (Inr [], s)
      else
        let session_ids = map doc_id session_candidates
        in case content_recommend_sessions u session_candidates
                  (int (length session_candidates)) of
             Inl e \<Rightarrow> (Inl e, s)
           | Inr content_recs \<Rightarrow>
               let content_scores = normalize_scores content_recs
               in (case cf_score_dict s user_id session_ids of
                     Inl e \<Rightarrow> (Inl e, s)
                   | Inr cf_scores \<Rightarrow>
                       let gnn_scores = gnn_score_dict s user_id session_ids;
                           (final_scores, s') =
                             (if ensemble_method s = ''context_aware''
                              then context_aware_fusion s u ''session''
                                     content_scores cf_scores gnn_scores
                              else (weighted_ensemble (weights s) (models_ready s)
                                      content_scores cf_scores gnn_scores, s));
                           ranked_sessions = py_take top_k (sort_desc final_scores)
                       in (Inr (add_explanations u session_candidates ''session'' ranked_sessions),
                           s')))"

definition recommend_groups ::
  "ensemble \<Rightarrow> string \<Rightarrow> user_data \<Rightarrow> item_data list \<Rightarrow> int \<Rightarrow> outcome" where
  "recommend_groups s user_id u group_candidates top_k =
     (if group_candidates = [] then (Inr [], s)
      else
        let group_ids = map doc_id group_candidates;
            content_recs = content_recommend_groups u group_candidates
                             (int (length group_candidates));
            content_scores = normalize_scores content_recs
        in case cf_score_dict s user_id group_ids of
             Inl e \<Rightarrow> (Inl e, s)
           | Inr cf_scores \<Rightarrow>
               let gnn_scores = gnn_score_dict s user_id group_ids;
                   (final_scores, s') =
                     (if ensemble_method s = ''context_aware''
                      then context_aware_fusion s u ''group'' content_scores cf_scores gnn_scores
                      else (weighted_ensemble (weights s) (models_ready s)
                              content_scores cf_scores gnn_scores, s));
                   ranked_groups = py_take top_k (sort_desc final_scores)
               in (Inr (add_explanations u group_candidates ''group'' ranked_groups), s'))"

section \<open>Example data\<close>

text \<open>A user profile, a session and a mentor as the feature extraction builds them.\<close>

definition plain_user :: user_data where
  "plain_user = \<lparr>interests = Some [''programming''], skill_level = Some ''beginner'',
     streak = Some 3, goal_categories = Some []\<rparr>"

definition session_of :: "string \<Rightarrow> real \<Rightarrow> item_data" where
  "session_of i mx = empty_item\<lparr>doc_id := i, subject := Some ''programming'',
     level := Some ''beginner'', max_participants := Some mx\<rparr>"

definition mentor_of :: "string \<Rightarrow> real \<Rightarrow> item_data" where
  "mentor_of i rate = empty_item\<lparr>doc_id := i, domains := Some [''programming''],
     success_rate := Some rate\<rparr>"

text \<open>No session of the list carries the capacity 0.\<close>

definition no_zero_capacity :: "item_data list \<Rightarrow> bool" where
  "no_zero_capacity items = (\<forall>c \<in> set items. max_participants c \<noteq> Some 0)"

section \<open>Score ranges\<close>

text \<open>
  The stored weights are not negative, as \<open>__init__\<close> sets them and as
  \<open>set_weights\<close> leaves them on non-negative arguments.
\<close>

definition weights_nonneg :: "weights \<Rightarrow> bool" where
  "weights_nonneg w = (0 \<le> w_content w \<and> 0 \<le> w_collaborative w \<and> 0 \<le> w_gnn w)"

text \<open>Every value of a score dictionary, and every score of a result list, lies in [0,1].\<close>

definition unit_dict :: "('k, real) dict \<Rightarrow> bool" where
  "unit_dict d = list_all (\<lambda>(k, v). 0 \<le> v \<and> v \<le> 1) d"

definition scores_in_unit :: "(string \<times> real \<times> string) list \<Rightarrow> bool" where
  "scores_in_unit res = list_all (\<lambda>(cid, score, explanation). 0 \<le> score \<and> score \<le> 1) res"

text \<open>
  Every candidate is a mentor profile: it has the key \<open>domains\<close>, and its success
  rate, 0.8 when absent, is a fraction in [0,1].
\<close>

definition mentors_well_formed :: "item_data list \<Rightarrow> bool" where
  "mentors_well_formed candidates =
     list_all (\<lambda>c. domains c \<noteq> None \<and> 0 \<le> get_or (success_rate c) (8/10)
                    \<and> get_or (success_rate c) (8/10) \<le> 1) candidates"

section \<open>collaborative\_filter.py: training\<close>

text \<open>
  An interaction record. \<open>inter_user\<close>, \<open>inter_item\<close> and \<open>inter_weight\<close> are the keys
  \<open>'user_id'\<close>, \<open>'item_id'\<close> and \<open>'weight'\<close>.
\<close>

record interaction =
  inter_user :: string
  inter_item :: string
  interaction_type :: "string option"
  inter_weight :: "real option"

text \<open>\<open>interaction_weights.get(interaction_type, 1.0)\<close> and the weight of one record.\<close>

definition interaction_weights :: "string \<Rightarrow> real" where
  "interaction_weights t =
     (if t = ''view'' then 1
      else if t = ''join'' then 2
      else if t = ''complete'' then 3
      else if t = ''rate_positive'' then 4
      else if t = ''bookmark'' then 5/2
      else 1)"

definition interaction_value :: "interaction \<Rightarrow> real" where
  "interaction_value i =
     interaction_weights (get_or (interaction_type i) ''view'') * get_or (inter_weight i) 1"

text \<open>
  The stored entries of the sparse matrix: one per (user, item) pair, duplicates
  summed. The global bias is their mean.
\<close>

definition matrix_data :: "interaction list \<Rightarrow> real list" where
  "matrix_data interactions =
     map (\<lambda>(u, t). sum_list (map interaction_value
            (filter (\<lambda>i. inter_user i = u \<and> inter_item i = t) interactions)))
         (remdups (map (\<lambda>i. (inter_user i, inter_item i)) interactions))"

definition mean :: "real list \<Rightarrow> real" where
  "mean xs = sum_list xs / real (length xs)"

text \<open>
  The truncated decomposition, the least-squares solves and the random initialisation
  are numerical library code. Their results enter training as a parameter: the number
  of factor columns and the value of every factor and bias entry. The shapes are those
  the code builds: the bias arrays start as \<open>np.zeros(n_users)\<close> and
  \<open>np.zeros(n_items)\<close>, and both factor matrices have one row per index and the same
  number of columns.
\<close>

record fitted =
  n_columns :: nat
  fitted_user_factor :: "nat \<Rightarrow> nat \<Rightarrow> real"
  fitted_item_factor :: "nat \<Rightarrow> nat \<Rightarrow> real"
  fitted_user_bias :: "nat \<Rightarrow> real"
  fitted_item_bias :: "nat \<Rightarrow> real"

text \<open>\<open>{id: idx for idx, id in enumerate(sorted(set(ids)))}\<close>.\<close>

definition enumerate_ids :: "string list \<Rightarrow> (string, nat) dict" where
  "enumerate_ids ids = (let unique = sort (remdups ids) in zip unique [0..<length unique])"

text \<open>
  \<open>CollaborativeFilter.train\<close>: the id maps are rebuilt first; with no interaction
  the matrix has no entry and training returns early.
\<close>

definition train :: "cf_model \<Rightarrow> interaction list \<Rightarrow> fitted \<Rightarrow> cf_model" where
  "train m interactions fit =
     (let users = enumerate_ids (map inter_user interactions);
          items = enumerate_ids (map inter_item interactions);
          n_users = length users;
          n_items = length items;
          m1 = m\<lparr>user_id_map := users, item_id_map := items,
                 reverse_item_map := map (\<lambda>(item_id, idx). (idx, item_id)) items\<rparr>
      in if interactions = [] then m1
         else m1\<lparr>global_bias := mean (matrix_data interactions),
                 user_factors := Some (map (\<lambda>u. map (fitted_user_factor fit u) [0..<n_columns fit])
                                         [0..<n_users]),
                 item_factors := Some (map (\<lambda>i. map (fitted_item_factor fit i) [0..<n_columns fit])
                                         [0..<n_items]),
                 user_bias := Some (map (fitted_user_bias fit) [0..<n_users]),
                 item_bias := Some (map (fitted_item_bias fit) [0..<n_items]),
                 is_trained := True\<rparr>)"

text \<open>The interactions and the numerical results behind \<open>trained_example\<close>.\<close>

definition example_interactions :: "interaction list" where
  "example_interactions =
     [\<lparr>inter_user = ''u1'', inter_item = ''a'', interaction_type = Some ''view'', inter_weight = Some 1\<rparr>,
      \<lparr>inter_user = ''u1'', inter_item = ''b'', interaction_type = Some ''view'', inter_weight = Some 2\<rparr>,
      \<lparr>inter_user = ''u2'', inter_item = ''a'', interaction_type = Some ''view'', inter_weight = Some 1\<rparr>,
      \<lparr>inter_user = ''u2'', inter_item = ''b'', interaction_type = Some ''view'', inter_weight = Some 2\<rparr>]"

definition example_fit :: fitted where
  "example_fit = \<lparr>n_columns = 1, fitted_user_factor = (\<lambda>u c. 1),
     fitted_item_factor = (\<lambda>i c. if i = 0 then 1 else 2),
     fitted_user_bias = (\<lambda>u. 0), fitted_item_bias = (\<lambda>i. if i = 0 then - 1/2 else 1/2)\<rparr>"

section \<open>Properties of dictionaries\<close>

lemma map_of_dict_set: "map_of (dict_set d k v) = (map_of d)(k \<mapsto> v)"
  by (induction d k v rule: dict_set.induct) auto

lemma keys_dict_set: "set (map fst (dict_set d k v)) = insert k (set (map fst d))"
  by (induction d k v rule: dict_set.induct) auto

lemma distinct_dict_set: "distinct (map fst d) \<Longrightarrow> distinct (map fst (dict_set d k v))"
proof (induction d k v rule: dict_set.induct)
  case (1 k v)
  then show ?case by simp
next
  case (2 k' v' d k v)
  then show ?case
    using keys_dict_set [of d k v] by auto
qed

lemma map_of_fold_dict_set:
  "map_of (fold (\<lambda>(k, s) d. dict_set d k (f s)) xs d0) k =
     (case map_of (rev xs) k of Some s \<Rightarrow> Some (f s) | None \<Rightarrow> map_of d0 k)"
proof (induction xs arbitrary: d0)
  case Nil
  then show ?case by simp
next
  case (Cons x xs)
  obtain k' s' where x: "x = (k', s')" by (cases x)
  show ?case
    by (simp add: x Cons.IH map_of_dict_set map_add_def split: option.splits)
qed

lemma keys_fold_dict_set:
  "set (map fst (fold (\<lambda>(k, s) d. dict_set d k (f s)) xs d0)) = fst ` set xs \<union> set (map fst d0)"
proof (induction xs arbitrary: d0)
  case Nil
  then show ?case by simp
next
  case (Cons x xs)
  obtain k' s' where x: "x = (k', s')" by (cases x)
  show ?case
    by (simp add: x Cons.IH keys_dict_set del: set_map)
qed

section \<open>Weighted fusion\<close>

lemma weighted_ensemble_keys:
  "set (dict_keys (weighted_ensemble w r c cf g)) = set (dict_keys c) \<union> set (dict_keys cf) \<union> set (dict_keys g)"
  by (auto simp: weighted_ensemble_def dict_keys_def Let_def comp_def)

lemma map_of_weighted_ensemble:
  "map_of (weighted_ensemble w r c cf g) i =
     (if i \<in> set (dict_keys c) \<union> set (dict_keys cf) \<union> set (dict_keys g)
      then Some (weighted_score w r c cf g i) else None)"
  by (auto simp: weighted_ensemble_def Let_def map_of_map_restrict restrict_map_def dict_keys_def)

lemma dict_has_keys: "dict_has d k \<longleftrightarrow> k \<in> set (dict_keys d)"
  by (simp add: dict_has_def dict_keys_def map_of_eq_None_iff)

text \<open>
  Claim C10. The dictionary returned by weighted fusion has exactly the ids that occur
  in at least one of the three score dictionaries, each once; an id that occurs only in
  dictionaries of models that are not ready is present with final score 0.
\<close>

theorem weighted_fusion_union:
  "set (dict_keys (weighted_ensemble w r c cf g)) =
     set (dict_keys c) \<union> set (dict_keys cf) \<union> set (dict_keys g)
   \<and> distinct (dict_keys (weighted_ensemble w r c cf g))
   \<and> (\<forall>i \<in> set (dict_keys c) \<union> set (dict_keys cf) \<union> set (dict_keys g).
         (dict_has c i \<longrightarrow> \<not> r_content r) \<and>
         (dict_has cf i \<longrightarrow> \<not> r_collaborative r) \<and>
         (dict_has g i \<longrightarrow> \<not> r_gnn r)
         \<longrightarrow> map_of (weighted_ensemble w r c cf g) i = Some 0)"
proof (intro conjI ballI impI)
  show "set (dict_keys (weighted_ensemble w r c cf g)) =
     set (dict_keys c) \<union> set (dict_keys cf) \<union> set (dict_keys g)"
    by (rule weighted_ensemble_keys)
  show "distinct (dict_keys (weighted_ensemble w r c cf g))"
    by (simp add: weighted_ensemble_def dict_keys_def Let_def comp_def)
next
  fix i
  assume i: "i \<in> set (dict_keys c) \<union> set (dict_keys cf) \<union> set (dict_keys g)"
    and nr: "(dict_has c i \<longrightarrow> \<not> r_content r) \<and>
         (dict_has cf i \<longrightarrow> \<not> r_collaborative r) \<and>
         (dict_has g i \<longrightarrow> \<not> r_gnn r)"
  have "weighted_score w r c cf g i = 0"
    using nr by (auto simp: weighted_score_def add_model_def dict_has_def Let_def split: option.splits)
  then show "map_of (weighted_ensemble w r c cf g) i = Some 0"
    using i by (simp add: map_of_weighted_ensemble)
qed

theorem weighted_fusion_union_witness:
  "set (dict_keys (weighted_ensemble default_weights initial_ready
          [(''a'', 1)] [(''b'', 1/2)] [])) = {''a'', ''b''}
   \<and> map_of (weighted_ensemble default_weights initial_ready
          [(''a'', 1)] [(''b'', 1/2)] []) ''b'' = Some 0"
  using weighted_fusion_union [of default_weights initial_ready
          "[(''a'', 1)]" "[(''b'', 1/2)]" "[]"]
  by (simp add: dict_keys_def dict_has_def initial_ready_def insert_commute)

section \<open>Normalisation\<close>

lemma normalize_scores_lookup:
  assumes "scores \<noteq> []"
  shows "map_of (normalize_scores scores) k =
     (case map_of (rev scores) k of
        None \<Rightarrow> None
      | Some s \<Rightarrow>
          if Max (set (map snd scores)) = Min (set (map snd scores)) then Some (1/2)
          else Some ((s - Min (set (map snd scores))) /
                     (Max (set (map snd scores)) - Min (set (map snd scores)))))"
  using assms
  by (simp add: normalize_scores_def Let_def map_of_fold_dict_set split: option.splits)

lemma normalize_scores_keys:
  "set (dict_keys (normalize_scores scores)) = fst ` set scores"
  by (simp add: normalize_scores_def Let_def dict_keys_def keys_fold_dict_set del: set_map)

lemma normalize_scores_distinct: "distinct (dict_keys (normalize_scores scores))"
proof -
  have "distinct (map fst d0) \<Longrightarrow> distinct (map fst (fold (\<lambda>(k, s) d. dict_set d k (f s)) xs d0))"
    for f :: "real \<Rightarrow> real" and xs :: "('a \<times> real) list" and d0
    by (induction xs arbitrary: d0) (auto simp: distinct_dict_set)
  from this [of "[]"] show ?thesis
    by (simp add: normalize_scores_def Let_def dict_keys_def)
qed

lemma minmax_scaled_range:
  fixes s :: real
  assumes "mn \<le> s" "s \<le> mx" "mn \<noteq> mx"
  shows "0 \<le> (s - mn) / (mx - mn) \<and> (s - mn) / (mx - mn) \<le> 1"
  using assms by (simp add: divide_le_eq)

lemma normalize_scores_range:
  assumes "(k, v) \<in> set (normalize_scores scores)"
  shows "0 \<le> v \<and> v \<le> 1"
proof -
  have ne: "scores \<noteq> []" using assms by (auto simp: normalize_scores_def)
  have "distinct (map fst (normalize_scores scores))"
    using normalize_scores_distinct [of scores] by (simp add: dict_keys_def)
  then have look: "map_of (normalize_scores scores) k = Some v"
    using assms by simp
  then obtain s where s: "map_of (rev scores) k = Some s"
    by (auto simp: normalize_scores_lookup [OF ne] split: option.splits)
  then have mem: "s \<in> set (map snd scores)"
    by (force dest: map_of_SomeD)
  have lo: "Min (set (map snd scores)) \<le> s" and hi: "s \<le> Max (set (map snd scores))"
    using mem by (simp_all)
  show ?thesis
  proof (cases "Max (set (map snd scores)) = Min (set (map snd scores))")
    case True
    then show ?thesis using look s by (simp add: normalize_scores_lookup [OF ne])
  next
    case False
    then have "v = (s - Min (set (map snd scores))) / (Max (set (map snd scores)) - Min (set (map snd scores)))"
      using look s by (simp add: normalize_scores_lookup [OF ne])
    then show ?thesis
      using minmax_scaled_range [OF lo hi] False by simp
  qed
qed

text \<open>
  Claim C2, as amended. For a non-empty list every normalised value lies in [0,1] and
  the keys are the ids of the list. The value of an id is decided by its last entry in
  the list: 1/2 when all scores are equal, otherwise 1 when that entry carries the
  maximum and 0 when it carries the minimum. When the ids are pairwise distinct every
  entry is the last entry of its id.
\<close>

theorem normalize_scores_minmax:
  assumes "scores \<noteq> []"
  shows "(\<forall>(k, v) \<in> set (normalize_scores scores). 0 \<le> v \<and> v \<le> 1)
       \<and> set (dict_keys (normalize_scores scores)) = fst ` set scores
       \<and> (\<forall>(k, s) \<in> set scores. map_of (rev scores) k = Some s \<longrightarrow>
            map_of (normalize_scores scores) k =
              Some (if Max (snd ` set scores) = Min (snd ` set scores) then 1/2
                    else if s = Max (snd ` set scores) then 1
                    else if s = Min (snd ` set scores) then 0
                    else (s - Min (snd ` set scores)) / (Max (snd ` set scores) - Min (snd ` set scores))))
       \<and> (distinct (map fst scores) \<longrightarrow> (\<forall>(k, s) \<in> set scores. map_of (rev scores) k = Some s))"
proof (intro conjI)
  show "\<forall>(k, v) \<in> set (normalize_scores scores). 0 \<le> v \<and> v \<le> 1"
    by (auto dest: normalize_scores_range)
  show "set (dict_keys (normalize_scores scores)) = fst ` set scores"
    by (rule normalize_scores_keys)
  show "\<forall>(k, s) \<in> set scores. map_of (rev scores) k = Some s \<longrightarrow>
            map_of (normalize_scores scores) k =
              Some (if Max (snd ` set scores) = Min (snd ` set scores) then 1/2
                    else if s = Max (snd ` set scores) then 1
                    else if s = Min (snd ` set scores) then 0
                    else (s - Min (snd ` set scores)) / (Max (snd ` set scores) - Min (snd ` set scores)))"
    by (auto simp: normalize_scores_lookup [OF assms])
  show "distinct (map fst scores) \<longrightarrow> (\<forall>(k, s) \<in> set scores. map_of (rev scores) k = Some s)"
    by (auto simp: rev_map [symmetric])
qed

theorem normalize_scores_minmax_witness:
  "map_of (normalize_scores [(''a'', 1), (''b'', 3), (''c'', 2::real)]) ''b'' = Some 1
   \<and> map_of (normalize_scores [(''a'', 1), (''b'', 3), (''c'', 2::real)]) ''a'' = Some 0"
  using normalize_scores_minmax [of "[(''a'', 1), (''b'', 3), (''c'', 2::real)]"]
  by simp

text \<open>
  The claim as stated fails when an id occurs twice: in \<open>[(a, 1), (a, 0)]\<close> the id
  \<open>a\<close> carries the maximum score 1 but is mapped to 0, the value of its last entry.
\<close>

theorem normalize_scores_duplicate_id_counterexample:
  "Max (snd ` set [(''a'', 1), (''a'', 0::real)]) = 1
   \<and> Min (snd ` set [(''a'', 1), (''a'', 0::real)]) = 0
   \<and> (''a'', 1) \<in> set [(''a'', 1), (''a'', 0::real)]
   \<and> map_of (normalize_scores [(''a'', 1), (''a'', 0::real)]) ''a'' = Some 0"
  by (simp add: normalize_scores_def)

section \<open>The latent factor model\<close>

lemma traverse_Inr:
  assumes "\<And>x. x \<in> set xs \<Longrightarrow> f x = Inr (g x)"
  shows "traverse f xs = Inr (map g xs)"
  using assms by (induction xs) simp_all

lemma trained_okD:
  assumes "trained_ok m"
  shows "\<exists>ub ib uf itf.
    is_trained m \<and> user_bias m = Some ub \<and> item_bias m = Some ib \<and>
    user_factors m = Some uf \<and> item_factors m = Some itf \<and>
    length uf = length ub \<and> length itf = length ib \<and>
    (\<forall>u i. map_of (user_id_map m) u = Some i \<longrightarrow> i < length ub) \<and>
    (\<forall>t j. map_of (item_id_map m) t = Some j \<longrightarrow> j < length ib) \<and>
    (\<forall>a b. a \<in> set uf \<longrightarrow> b \<in> set itf \<longrightarrow> length a = length b)"
proof -
  from assms obtain ub ib uf itf where
    f: "is_trained m" "user_bias m = Some ub" "item_bias m = Some ib"
       "user_factors m = Some uf" "item_factors m = Some itf"
    by (auto simp: trained_ok_def split: option.splits)
  with assms have
    g: "length uf = length ub" "length itf = length ib"
       "\<forall>(u, i) \<in> set (user_id_map m). i < length ub"
       "\<forall>(t, j) \<in> set (item_id_map m). j < length ib"
       "\<forall>a \<in> set uf. \<forall>b \<in> set itf. length a = length b"
    by (simp_all add: trained_ok_def)
  have "\<forall>u i. map_of (user_id_map m) u = Some i \<longrightarrow> i < length ub"
    using g(3) by (auto dest: map_of_SomeD)
  moreover have "\<forall>t j. map_of (item_id_map m) t = Some j \<longrightarrow> j < length ib"
    using g(4) by (auto dest: map_of_SomeD)
  ultimately show ?thesis
    using f g(1,2,5) by blast
qed

lemma predict_cold_ok:
  assumes "trained_ok m"
  shows "predict_cold m (the (item_bias m)) item_id = Inr (cold_score m item_id)"
proof -
  from trained_okD [OF assms] obtain ib where ib: "item_bias m = Some ib"
    and rng: "\<And>t j. map_of (item_id_map m) t = Some j \<Longrightarrow> j < length ib"
    by blast
  show ?thesis
    by (auto simp: predict_cold_def cold_score_def ib bind_err_def np_index_def dest: rng split: option.splits)
qed

lemma predict_known_ok:
  assumes "trained_ok m" and u: "map_of (user_id_map m) user_id = Some ui"
  shows "predict_known m ui item_id = Inr (known_score m ui item_id)"
proof -
  from trained_okD [OF assms(1)] obtain ub ib uf itf where
    f: "user_bias m = Some ub" "item_bias m = Some ib"
       "user_factors m = Some uf" "item_factors m = Some itf"
    and len: "length uf = length ub" "length itf = length ib"
    and ur: "\<And>u i. map_of (user_id_map m) u = Some i \<Longrightarrow> i < length ub"
    and ir: "\<And>t j. map_of (item_id_map m) t = Some j \<Longrightarrow> j < length ib"
    and rows: "\<And>a b. a \<in> set uf \<Longrightarrow> b \<in> set itf \<Longrightarrow> length a = length b"
    by blast
  have ui: "ui < length ub" using ur [OF u] .
  show ?thesis
  proof (cases "map_of (item_id_map m) item_id")
    case None
    then show ?thesis
      using ui by (simp add: predict_known_def known_score_def f bind_err_def np_index_def)
  next
    case (Some j)
    then have j: "j < length ib" by (rule ir)
    have "length (uf ! ui) = length (itf ! j)"
      using rows [of "uf ! ui" "itf ! j"] ui j len by simp
    then show ?thesis
      using ui j len Some by (simp add: predict_known_def known_score_def f bind_err_def np_index_def np_dot_def)
  qed
qed

lemma predict_trained:
  assumes "trained_ok m"
  shows "predict m user_id item_ids =
           Inr (map (case map_of (user_id_map m) user_id of
                       None \<Rightarrow> cold_score m
                     | Some ui \<Rightarrow> known_score m ui) item_ids)"
proof -
  from trained_okD [OF assms] obtain ib where tr: "is_trained m" and ib: "item_bias m = Some ib"
    by blast
  show ?thesis
  proof (cases "map_of (user_id_map m) user_id")
    case None
    then show ?thesis
      using tr ib predict_cold_ok [OF assms]
      by (simp add: predict_def traverse_Inr)
  next
    case (Some ui)
    then show ?thesis
      using tr predict_known_ok [OF assms Some]
      by (simp add: predict_def traverse_Inr)
  qed
qed

text \<open>
  Claim C1. For a trained model \<open>predict\<close> returns one score per requested id and
  never fails on an index. For a user absent from the index the scores follow
  \<open>cold_score\<close>: global bias plus item bias for an indexed item, the global bias alone
  otherwise, so a single unknown item gives exactly \<open>[global_bias]\<close>. For an indexed
  user the scores follow \<open>known_score\<close>, which is global bias plus user bias for an
  item absent from the index.
\<close>

theorem predict_cold_start:
  assumes "trained_ok m"
  shows "(\<exists>scores. predict m user_id item_ids = Inr scores \<and> length scores = length item_ids)
       \<and> (map_of (user_id_map m) user_id = None \<longrightarrow>
            predict m user_id item_ids = Inr (map (cold_score m) item_ids)
            \<and> (\<forall>item_id. map_of (item_id_map m) item_id = None \<longrightarrow>
                  predict m user_id [item_id] = Inr [global_bias m]))
       \<and> (\<forall>ui. map_of (user_id_map m) user_id = Some ui \<longrightarrow>
            predict m user_id item_ids = Inr (map (known_score m ui) item_ids)
            \<and> (\<forall>item_id. map_of (item_id_map m) item_id = None \<longrightarrow>
                  known_score m ui item_id = global_bias m + the (user_bias m) ! ui))"
proof (intro conjI impI allI)
  show "\<exists>scores. predict m user_id item_ids = Inr scores \<and> length scores = length item_ids"
    by (simp add: predict_trained [OF assms])
next
  assume "map_of (user_id_map m) user_id = None"
  then show "predict m user_id item_ids = Inr (map (cold_score m) item_ids)"
    by (simp add: predict_trained [OF assms])
next
  fix item_id
  assume "map_of (user_id_map m) user_id = None" "map_of (item_id_map m) item_id = None"
  then show "predict m user_id [item_id] = Inr [global_bias m]"
    by (simp add: predict_trained [OF assms] cold_score_def)
next
  fix ui
  assume "map_of (user_id_map m) user_id = Some ui"
  then show "predict m user_id item_ids = Inr (map (known_score m ui) item_ids)"
    by (simp add: predict_trained [OF assms])
next
  fix ui item_id
  assume "map_of (item_id_map m) item_id = None"
  then show "known_score m ui item_id = global_bias m + the (user_bias m) ! ui"
    by (simp add: known_score_def)
qed

theorem predict_cold_start_witness:
  "trained_ok trained_example \<and> predict trained_example ''zz'' [''a'', ''q''] = Inr [1, 3/2]
   \<and> predict trained_example ''zz'' [''q''] = Inr [global_bias trained_example]
   \<and> predict trained_example ''u1'' [''q''] = Inr [3/2]"
proof -
  have ok: "trained_ok trained_example"
    by (simp add: trained_ok_def trained_example_def)
  have a: "predict trained_example ''zz'' [''a'', ''q''] = Inr [1, 3/2]"
    using predict_cold_start [OF ok, of "''zz''" "[''a'', ''q'']"]
    by (simp add: cold_score_def trained_example_def)
  have b: "predict trained_example ''zz'' [''q''] = Inr [global_bias trained_example]"
    using predict_cold_start [OF ok, of "''zz''" "[''q'']"]
    by (simp add: cold_score_def trained_example_def)
  have c: "predict trained_example ''u1'' [''q''] = Inr [3/2]"
    using predict_cold_start [OF ok, of "''u1''" "[''q'']"]
    by (simp add: known_score_def trained_example_def)
  show ?thesis
    using ok a b c by blast
qed

lemma predict_total:
  assumes "cf_inv m"
  shows "\<exists>scores. predict m user_id item_ids = Inr scores \<and> length scores = length item_ids"
proof (cases "is_trained m")
  case True
  then have "trained_ok m" using assms by (simp add: cf_inv_def)
  then show ?thesis by (simp add: predict_trained)
next
  case False
  then show ?thesis by (simp add: predict_def)
qed

lemma sort_desc_props:
  "mset (sort_desc xs) = mset xs"
  "sorted_wrt (\<lambda>a b. snd b \<le> snd a) (sort_desc xs)"
  "filter (\<lambda>x. snd x = v) (sort_desc xs) = filter (\<lambda>x. snd x = v) xs"
proof -
  show "mset (sort_desc xs) = mset xs" by (simp add: sort_desc_def)
  have "sorted (map (\<lambda>x. - snd x) (sort_desc xs))"
    by (simp add: sort_desc_def)
  then show "sorted_wrt (\<lambda>a b. snd b \<le> snd a) (sort_desc xs)"
    by (simp add: sorted_map)
  have "filter (\<lambda>x. - snd x = - v) (sort_key (\<lambda>x. - snd x) xs) = filter (\<lambda>x. - snd x = - v) xs"
    by (rule sort_key_stable)
  then show "filter (\<lambda>x. snd x = v) (sort_desc xs) = filter (\<lambda>x. snd x = v) xs"
    by (simp add: sort_desc_def)
qed

lemma length_py_take: "0 \<le> k \<Longrightarrow> length (py_take k xs) \<le> nat k"
  by (simp add: py_take_def)

lemma set_py_take: "set (py_take k xs) \<subseteq> set xs"
  by (auto simp: py_take_def dest: in_set_takeD)

text \<open>
  Claim C8. \<open>recommend_items\<close> pairs the candidates with their predicted scores,
  orders the pairs by descending score keeping the input order among equal scores
  (a stable sort), and returns the slice \<open>[:top_k]\<close> of that ranking. \<open>top_k\<close> is the
  number of recommendations to return, a count: for \<open>top_k \<ge> 0\<close> the slice is the
  first \<open>top_k\<close> pairs, so at most \<open>top_k\<close> entries.
\<close>

theorem recommend_items_ranked:
  assumes "cf_inv m"
  shows "\<exists>scores ranked.
           predict m user_id item_candidates = Inr scores
         \<and> length scores = length item_candidates
         \<and> mset ranked = mset (zip item_candidates scores)
         \<and> sorted_wrt (\<lambda>a b. snd b \<le> snd a) ranked
         \<and> (\<forall>v. filter (\<lambda>x. snd x = v) ranked = filter (\<lambda>x. snd x = v) (zip item_candidates scores))
         \<and> recommend_items m user_id item_candidates top_k = Inr (py_take top_k ranked)
         \<and> (0 \<le> top_k \<longrightarrow> py_take top_k ranked = take (nat top_k) ranked
                          \<and> int (length (py_take top_k ranked)) \<le> top_k)"
proof -
  from predict_total [OF assms] obtain scores where
    p: "predict m user_id item_candidates = Inr scores" and l: "length scores = length item_candidates"
    by blast
  let ?ranked = "sort_desc (zip item_candidates scores)"
  have r: "recommend_items m user_id item_candidates top_k = Inr (py_take top_k ?ranked)"
  proof (cases "item_candidates = []")
    case True
    then show ?thesis using l by (simp add: recommend_items_def py_take_def sort_desc_def)
  next
    case False
    then show ?thesis by (simp add: recommend_items_def bind_err_def p)
  qed
  have t: "0 \<le> top_k \<longrightarrow> py_take top_k ?ranked = take (nat top_k) ?ranked
                          \<and> int (length (py_take top_k ?ranked)) \<le> top_k"
    by (auto simp: py_take_def)
  show ?thesis
    using p l r t sort_desc_props [where xs = "zip item_candidates scores"] by blast
qed

theorem recommend_items_ranked_witness:
  "cf_inv trained_example \<and> recommend_items trained_example ''u1'' [''a'', ''q'', ''b''] 2 = Inr [(''b'', 4), (''a'', 2)]"
proof -
  have ok: "cf_inv trained_example"
    by (simp add: cf_inv_def trained_ok_def trained_example_def)
  have p: "predict trained_example ''u1'' [''a'', ''q'', ''b''] = Inr [2, 3/2, 4]"
    by (simp add: predict_def predict_known_def bind_err_def np_index_def np_dot_def trained_example_def)
  from recommend_items_ranked [OF ok, of "''u1''" "[''a'', ''q'', ''b'']" 2]
  obtain ranked where
    m: "mset ranked = mset (zip [''a'', ''q'', ''b''] [2, 3/2, 4::real])"
    and r: "recommend_items trained_example ''u1'' [''a'', ''q'', ''b''] 2 = Inr (py_take 2 ranked)"
    using p by auto
  have "recommend_items trained_example ''u1'' [''a'', ''q'', ''b''] 2 = Inr [(''b'', 4), (''a'', 2)]"
    by (simp add: recommend_items_def bind_err_def p py_take_def sort_desc_def)
  then show ?thesis using ok r by simp
qed

text \<open>
  Claim C7. The code drops the first index of the descending ranking, taking it to be
  the query item. Item \<open>b\<close> has a larger dot product with \<open>a\<close> than \<open>a\<close> has with
  itself, so for the query \<open>a\<close> the dropped index is \<open>b\<close> and the query item itself
  is returned.
\<close>

theorem get_similar_items_returns_query:
  "get_similar_items trained_example ''a'' 10 = Inr [(''a'', 1)]"
  by (simp add: get_similar_items_def trained_example_def bind_err_def np_index_def np_dot_def argsort_def py_slice_def py_take_def)

section \<open>The coordinator\<close>

lemma routing_total:
  "w_content (context_aware_routing u t) + w_collaborative (context_aware_routing u t)
     + w_gnn (context_aware_routing u t) = 1"
  by (simp add: context_aware_routing_def Let_def)

lemma routing_nonneg:
  "0 \<le> w_content (context_aware_routing u t) \<and> 0 \<le> w_collaborative (context_aware_routing u t)
     \<and> 0 \<le> w_gnn (context_aware_routing u t)"
  by (simp add: context_aware_routing_def Let_def)

lemma context_aware_fusion_weights:
  "weights (snd (context_aware_fusion s u t c cf g)) = weights s"
  by (simp add: context_aware_fusion_def Let_def)

text \<open>
  Claim C9. Every recommend operation leaves the stored weights of the coordinator as
  they were before the call, whatever the method and whether the call returns a list
  or leaves with an exception. In the context-aware branch the adaptive weights are
  stored, used by the fusion and replaced by the saved weights; the fusion is
  arithmetic on dictionaries and has no failing path, and every step that can raise
  comes before the weights are replaced.
\<close>

theorem recommend_keeps_weights:
  "weights (snd (recommend_mentors s user_id u candidates top_k)) = weights s
   \<and> weights (snd (recommend_sessions s user_id u candidates top_k)) = weights s
   \<and> weights (snd (recommend_groups s user_id u candidates top_k)) = weights s"
  by (auto simp: recommend_mentors_def recommend_sessions_def recommend_groups_def Let_def
      context_aware_fusion_def split: sum.splits prod.splits if_splits)

lemma traverse_InrD:
  "traverse f xs = Inr ys \<Longrightarrow> list_all2 (\<lambda>x y. f x = Inr y) xs ys"
  by (induction xs arbitrary: ys) (auto split: sum.splits)

lemma fst_set_sort_desc_py_take: "fst ` set (py_take k (sort_desc xs)) \<subseteq> fst ` set xs"
  using set_py_take [of k "sort_desc xs"] by (auto simp: sort_desc_def)

lemma length_py_take_le: "length (py_take k xs) \<le> length xs"
  by (simp add: py_take_def)

lemma length_py_take_int: "0 \<le> k \<Longrightarrow> int (length (py_take k xs)) \<le> k"
  by (simp add: py_take_def)

lemma recommend_items_ids:
  assumes "recommend_items m user_id cands k = Inr r"
  shows "fst ` set r \<subseteq> set cands"
proof (cases "cands = []")
  case True
  then show ?thesis using assms by (simp add: recommend_items_def)
next
  case False
  then obtain scores where "r = py_take k (sort_desc (zip cands scores))"
    using assms by (auto simp: recommend_items_def bind_err_def split: sum.splits)
  moreover have "fst ` set (zip cands scores) \<subseteq> set cands"
    by (auto dest: set_zip_leftD)
  ultimately show ?thesis
    using fst_set_sort_desc_py_take [of k "zip cands scores"] by blast
qed

lemma recommend_items_length:
  assumes "recommend_items m user_id cands k = Inr r" "0 \<le> k"
  shows "int (length r) \<le> k"
  using assms
  by (auto simp: recommend_items_def bind_err_def length_py_take_int split: sum.splits if_splits)

lemma gnn_score_list_ids: "fst ` set (gnn_score_list g ui cands) \<subseteq> set cands"
  by (auto simp: gnn_score_list_def split: option.splits if_splits)

lemma gnn_recommend_items_ids: "fst ` set (gnn_recommend_items g user_id cands k) \<subseteq> set cands"
proof -
  have "fst ` set (py_take k (sort_desc (gnn_score_list g ui cands))) \<subseteq> set cands" for ui
    using fst_set_sort_desc_py_take [of k "gnn_score_list g ui cands"] gnn_score_list_ids [of g ui cands]
    by blast
  then show ?thesis
    by (auto simp: gnn_recommend_items_def split: option.splits)
qed

lemma cascade_stage1_subset: "set (cascade_stage1 s user_id cands k) \<subseteq> set cands"
  using gnn_recommend_items_ids [of "gnn s" user_id cands] set_py_take [of "k * 3" cands]
  by (auto simp: cascade_stage1_def)

lemma cascade_stage2_subset:
  assumes "cascade_stage2 s user_id ids k = Inr ids'"
  shows "set ids' \<subseteq> set ids"
  using assms recommend_items_ids [of "collaborative s" user_id ids "k * 2"]
  by (auto simp: cascade_stage2_def bind_err_def split: if_splits sum.splits)

lemma content_recommend_mentors_ids:
  "fst ` set (content_recommend_mentors u xs k) \<subseteq> doc_id ` set xs"
  using fst_set_sort_desc_py_take [of k "map (\<lambda>mentor. (doc_id mentor, mentor_score u mentor)) xs"]
  by (auto simp: content_recommend_mentors_def)

lemma content_recommend_groups_ids:
  "fst ` set (content_recommend_groups u xs k) \<subseteq> doc_id ` set xs"
  using fst_set_sort_desc_py_take
    [of k "map (\<lambda>grp. (doc_id grp, group_score u grp)) (filter group_available xs)"]
  by (auto simp: content_recommend_groups_def)

lemma session_recs_ids:
  assumes "traverse (\<lambda>session. bind_err (session_score u session) (\<lambda>total. Inr (doc_id session, total))) xs = Inr recs"
  shows "map fst recs = map doc_id xs"
proof -
  have "list_all2 (\<lambda>x y. bind_err (session_score u x) (\<lambda>total. Inr (doc_id x, total)) = Inr y) xs recs"
    using assms by (rule traverse_InrD)
  then show ?thesis
    by (induction rule: list_all2_induct) (auto simp: bind_err_def split: sum.splits)
qed

lemma content_recommend_sessions_ids:
  assumes "content_recommend_sessions u xs k = Inr r"
  shows "fst ` set r \<subseteq> doc_id ` set xs"
proof -
  from assms obtain recs where
    t: "traverse (\<lambda>session. bind_err (session_score u session) (\<lambda>total. Inr (doc_id session, total))) xs = Inr recs"
    and r: "r = py_take k (sort_desc recs)"
    by (auto simp: content_recommend_sessions_def bind_err_def split: sum.splits)
  have "fst ` set recs = doc_id ` set xs"
    using session_recs_ids [OF t] by (metis set_map)
  then show ?thesis
    using fst_set_sort_desc_py_take [of k recs] r by simp
qed

lemma content_lengths:
  assumes "0 \<le> k"
  shows "int (length (content_recommend_mentors u xs k)) \<le> k"
    and "int (length (content_recommend_groups u xs k)) \<le> k"
    and "content_recommend_sessions u xs k = Inr r \<Longrightarrow> int (length r) \<le> k"
  using assms
  by (auto simp: content_recommend_mentors_def content_recommend_groups_def
      content_recommend_sessions_def bind_err_def length_py_take_int split: sum.splits)

lemma cascade_stage3_cases:
  assumes "cascade_stage3 u items ids k = Inr res"
  shows "res = map (\<lambda>cid. (cid, 1/2)) (py_take k ids)
       \<or> res = content_recommend_mentors u (filter (\<lambda>item. doc_id item \<in> set ids) items) k
       \<or> content_recommend_sessions u (filter (\<lambda>item. doc_id item \<in> set ids) items) k = Inr res
       \<or> res = content_recommend_groups u (filter (\<lambda>item. doc_id item \<in> set ids) items) k"
proof (cases "filter (\<lambda>item. doc_id item \<in> set ids) items")
  case Nil
  with assms show ?thesis by (simp add: cascade_stage3_def)
next
  case (Cons first rest)
  with assms show ?thesis
    by (cases "domains first = None"; cases "subject first = None")
      (simp_all add: cascade_stage3_def)
qed

lemma cascade_stage3_ids:
  assumes "cascade_stage3 u items ids k = Inr res"
  shows "fst ` set res \<subseteq> set ids"
proof -
  let ?data = "filter (\<lambda>item. doc_id item \<in> set ids) items"
  have d: "doc_id ` set ?data \<subseteq> set ids" by auto
  from cascade_stage3_cases [OF assms] consider
    (e) "res = map (\<lambda>cid. (cid, 1/2)) (py_take k ids)"
    | (m) "res = content_recommend_mentors u ?data k"
    | (s) "content_recommend_sessions u ?data k = Inr res"
    | (g) "res = content_recommend_groups u ?data k"
    by blast
  then show ?thesis
  proof cases
    case e
    have "fst ` set res = set (py_take k ids)"
      unfolding e by (simp add: image_image)
    then show ?thesis using set_py_take [of k ids] by simp
  next
    case m
    then show ?thesis using content_recommend_mentors_ids [of u ?data k] d by blast
  next
    case s
    then show ?thesis using content_recommend_sessions_ids [of u ?data k res] d by blast
  next
    case g
    then show ?thesis using content_recommend_groups_ids [of u ?data k] d by blast
  qed
qed

lemma cascade_stage3_length:
  assumes "cascade_stage3 u items ids k = Inr res" "0 \<le> k"
  shows "int (length res) \<le> k"
proof -
  let ?data = "filter (\<lambda>item. doc_id item \<in> set ids) items"
  from cascade_stage3_cases [OF assms(1)] consider
    (e) "res = map (\<lambda>cid. (cid, 1/2)) (py_take k ids)"
    | (m) "res = content_recommend_mentors u ?data k"
    | (s) "content_recommend_sessions u ?data k = Inr res"
    | (g) "res = content_recommend_groups u ?data k"
    by blast
  then show ?thesis
  proof cases
    case e
    then show ?thesis using length_py_take_int [OF assms(2), of ids] by simp
  next
    case m
    then show ?thesis using content_lengths(1) [OF assms(2), of u ?data] by simp
  next
    case s
    then show ?thesis using content_lengths(3) [OF assms(2) s] by simp
  next
    case g
    then show ?thesis using content_lengths(2) [OF assms(2), of u ?data] by simp
  qed
qed

lemma recommend_items_total:
  assumes "cf_inv m"
  shows "\<exists>r. recommend_items m user_id cands k = Inr r"
  using predict_total [OF assms, of user_id cands]
  by (auto simp: recommend_items_def bind_err_def)

lemma session_score_total:
  assumes "max_participants c \<noteq> Some 0"
  shows "\<exists>v. session_score u c = Inr v"
  using assms by (auto simp: session_score_def Let_def get_or_def split: option.splits)

lemma content_recommend_sessions_total:
  assumes "no_zero_capacity xs"
  shows "\<exists>r. content_recommend_sessions u xs k = Inr r"
proof -
  have "\<exists>recs. traverse (\<lambda>session. bind_err (session_score u session)
                   (\<lambda>total. Inr (doc_id session, total))) xs = Inr recs"
    using assms
  proof (induction xs)
    case Nil
    then show ?case by simp
  next
    case (Cons c xs)
    then obtain v where "session_score u c = Inr v"
      using session_score_total [of c u] by (auto simp: no_zero_capacity_def)
    moreover have "no_zero_capacity xs"
      using Cons.prems by (simp add: no_zero_capacity_def)
    ultimately show ?case
      using Cons.IH by (auto simp: bind_err_def)
  qed
  then show ?thesis
    by (auto simp: content_recommend_sessions_def bind_err_def)
qed

lemma cascading_ensemble_total:
  assumes "cf_inv (collaborative s)" "no_zero_capacity items"
  shows "\<exists>res. cascading_ensemble s user_id ids u items k = Inr res"
proof -
  obtain r where r: "recommend_items (collaborative s) user_id (cascade_stage1 s user_id ids k) (k * 2) = Inr r"
    using recommend_items_total [OF assms(1)] by blast
  have "\<exists>ids2. cascade_stage2 s user_id (cascade_stage1 s user_id ids k) k = Inr ids2"
    by (simp add: cascade_stage2_def bind_err_def r)
  then obtain ids2 where s2: "cascade_stage2 s user_id (cascade_stage1 s user_id ids k) k = Inr ids2"
    by blast
  let ?data = "filter (\<lambda>item. doc_id item \<in> set ids2) items"
  have "no_zero_capacity ?data"
    using assms(2) by (simp add: no_zero_capacity_def)
  then obtain rs where rs: "content_recommend_sessions u ?data k = Inr rs"
    using content_recommend_sessions_total by blast
  have "\<exists>res. cascade_stage3 u items ids2 k = Inr res"
  proof (cases ?data)
    case Nil
    then show ?thesis by (simp add: cascade_stage3_def)
  next
    case (Cons first rest)
    then show ?thesis using rs by (auto simp: cascade_stage3_def Let_def)
  qed
  then show ?thesis
    by (simp add: cascading_ensemble_def s2 bind_err_def)
qed

text \<open>
  Claim C5. No stage of the funnel adds an id: the graph stage keeps ids of the
  request, the collaborative stage keeps ids of the graph stage, and the content stage
  returns ids of the collaborative stage, so every returned id is in the first-stage
  superset. \<open>top_k\<close> is the number of recommendations, a count: for \<open>top_k \<ge> 0\<close> at
  most \<open>top_k\<close> results are returned. Cascading fusion returns a list whenever the
  collaborative model is untrained or as training leaves it and no candidate carries
  the capacity 0.
\<close>

theorem cascading_narrows:
  shows "set (cascade_stage1 s user_id ids top_k) \<subseteq> set ids
       \<and> (\<forall>ids2. cascade_stage2 s user_id (cascade_stage1 s user_id ids top_k) top_k = Inr ids2 \<longrightarrow>
             set ids2 \<subseteq> set (cascade_stage1 s user_id ids top_k)
           \<and> (\<forall>res. cascade_stage3 u items ids2 top_k = Inr res \<longrightarrow> fst ` set res \<subseteq> set ids2))
       \<and> (\<forall>res. cascading_ensemble s user_id ids u items top_k = Inr res \<longrightarrow>
             fst ` set res \<subseteq> set (cascade_stage1 s user_id ids top_k)
           \<and> (0 \<le> top_k \<longrightarrow> int (length res) \<le> top_k))
       \<and> (cf_inv (collaborative s) \<and> no_zero_capacity items \<longrightarrow>
             (\<exists>res. cascading_ensemble s user_id ids u items top_k = Inr res))"
proof (intro conjI allI impI)
  show "set (cascade_stage1 s user_id ids top_k) \<subseteq> set ids"
    by (rule cascade_stage1_subset)
next
  fix ids2
  assume "cascade_stage2 s user_id (cascade_stage1 s user_id ids top_k) top_k = Inr ids2"
  then show "set ids2 \<subseteq> set (cascade_stage1 s user_id ids top_k)"
    by (rule cascade_stage2_subset)
next
  fix ids2 res
  assume "cascade_stage3 u items ids2 top_k = Inr res"
  then show "fst ` set res \<subseteq> set ids2"
    by (rule cascade_stage3_ids)
next
  fix res
  assume r: "cascading_ensemble s user_id ids u items top_k = Inr res"
  then obtain ids2 where
    s2: "cascade_stage2 s user_id (cascade_stage1 s user_id ids top_k) top_k = Inr ids2"
    and s3: "cascade_stage3 u items ids2 top_k = Inr res"
    by (auto simp: cascading_ensemble_def bind_err_def split: sum.splits)
  show "fst ` set res \<subseteq> set (cascade_stage1 s user_id ids top_k)"
    using cascade_stage2_subset [OF s2] cascade_stage3_ids [OF s3] by blast
  assume "0 \<le> top_k"
  then show "int (length res) \<le> top_k"
    using cascade_stage3_length [OF s3] by simp
next
  assume "cf_inv (collaborative s) \<and> no_zero_capacity items"
  then show "\<exists>res. cascading_ensemble s user_id ids u items top_k = Inr res"
    using cascading_ensemble_total by blast
qed

theorem cascading_narrows_witness:
  "cf_inv (collaborative (ensemble_init ''cascading''))
   \<and> no_zero_capacity [mentor_of ''m1'' (9/10), mentor_of ''m2'' (9/10)]
   \<and> (case cascading_ensemble (ensemble_init ''cascading'') ''u1'' [''m1'', ''m2''] plain_user
              [mentor_of ''m1'' (9/10), mentor_of ''m2'' (9/10)] 1 of
         Inr res \<Rightarrow> int (length res) \<le> 1 | Inl e \<Rightarrow> False)"
proof -
  have ok: "cf_inv (collaborative (ensemble_init ''cascading''))"
    by (simp add: cf_inv_def ensemble_init_def cf_init_def)
  have cap: "no_zero_capacity [mentor_of ''m1'' (9/10), mentor_of ''m2'' (9/10)]"
    by (simp add: no_zero_capacity_def mentor_of_def empty_item_def)
  from cascading_narrows [of "ensemble_init ''cascading''" "''u1''" "[''m1'', ''m2'']" 1 plain_user
      "[mentor_of ''m1'' (9/10), mentor_of ''m2'' (9/10)]"] ok cap
  obtain res where
    "cascading_ensemble (ensemble_init ''cascading'') ''u1'' [''m1'', ''m2''] plain_user
       [mentor_of ''m1'' (9/10), mentor_of ''m2'' (9/10)] 1 = Inr res"
    and "int (length res) \<le> 1"
    by auto
  then show ?thesis using ok cap by simp
qed

text \<open>
  Claim C6, as amended, for \<open>top_k \<ge> 0\<close>. When the graph model is ready the first
  stage is the ids of its ranking cut at \<open>min(len(candidates), 5 * top_k)\<close>, at most
  \<open>5 * top_k\<close> ids. When it is not ready the first stage is the first \<open>3 * top_k\<close>
  candidates. When the collaborative model is ready and the first stage is not empty,
  the second stage is the ids of the collaborative ranking cut at \<open>2 * top_k\<close>;
  otherwise it passes the ids on unchanged.
\<close>

theorem cascading_stage_sizes:
  assumes "0 \<le> top_k"
  shows "(r_gnn (models_ready s) \<longrightarrow>
            cascade_stage1 s user_id ids top_k =
              map fst (gnn_recommend_items (gnn s) user_id ids (min (int (length ids)) (5 * top_k)))
          \<and> int (length (cascade_stage1 s user_id ids top_k)) \<le> 5 * top_k)
       \<and> (\<not> r_gnn (models_ready s) \<longrightarrow>
            cascade_stage1 s user_id ids top_k = take (nat (3 * top_k)) ids)
       \<and> (r_collaborative (models_ready s) \<and> ids1 \<noteq> [] \<longrightarrow>
            cascade_stage2 s user_id ids1 top_k =
              bind_err (recommend_items (collaborative s) user_id ids1 (2 * top_k))
                (\<lambda>ranked. Inr (map fst ranked))
          \<and> (\<forall>ids2. cascade_stage2 s user_id ids1 top_k = Inr ids2 \<longrightarrow>
                int (length ids2) \<le> 2 * top_k \<and> set ids2 \<subseteq> set ids1))
       \<and> (\<not> (r_collaborative (models_ready s) \<and> ids1 \<noteq> []) \<longrightarrow>
            cascade_stage2 s user_id ids1 top_k = Inr ids1)"
proof (intro conjI impI allI)
  assume g: "r_gnn (models_ready s)"
  then show e: "cascade_stage1 s user_id ids top_k =
      map fst (gnn_recommend_items (gnn s) user_id ids (min (int (length ids)) (5 * top_k)))"
    by (simp add: cascade_stage1_def mult.commute)
  have "0 \<le> min (int (length ids)) (5 * top_k)" using assms by simp
  then have "int (length (py_take (min (int (length ids)) (5 * top_k)) xs))
               \<le> min (int (length ids)) (5 * top_k)" for xs :: "(string \<times> real) list"
    by (rule length_py_take_int)
  then have "int (length (gnn_recommend_items (gnn s) user_id ids (min (int (length ids)) (5 * top_k))))
               \<le> 5 * top_k"
    using assms by (auto simp: gnn_recommend_items_def split: option.splits intro: order_trans)
  then show "int (length (cascade_stage1 s user_id ids top_k)) \<le> 5 * top_k"
    by (simp add: e)
next
  assume "\<not> r_gnn (models_ready s)"
  then show "cascade_stage1 s user_id ids top_k = take (nat (3 * top_k)) ids"
    using assms by (simp add: cascade_stage1_def py_take_def mult.commute)
next
  assume c: "r_collaborative (models_ready s) \<and> ids1 \<noteq> []"
  then show "cascade_stage2 s user_id ids1 top_k =
      bind_err (recommend_items (collaborative s) user_id ids1 (2 * top_k))
        (\<lambda>ranked. Inr (map fst ranked))"
    by (simp add: cascade_stage2_def mult.commute)
next
  fix ids2
  assume c: "r_collaborative (models_ready s) \<and> ids1 \<noteq> []"
    and r: "cascade_stage2 s user_id ids1 top_k = Inr ids2"
  from c r obtain ranked where
    rk: "recommend_items (collaborative s) user_id ids1 (top_k * 2) = Inr ranked"
    and i2: "ids2 = map fst ranked"
    by (auto simp: cascade_stage2_def bind_err_def split: sum.splits)
  have "int (length ranked) \<le> top_k * 2"
    using recommend_items_length [OF rk] assms by simp
  then show "int (length ids2) \<le> 2 * top_k"
    by (simp add: i2)
  show "set ids2 \<subseteq> set ids1"
    using r by (rule cascade_stage2_subset)
next
  assume "\<not> (r_collaborative (models_ready s) \<and> ids1 \<noteq> [])"
  then show "cascade_stage2 s user_id ids1 top_k = Inr ids1"
    by (auto simp: cascade_stage2_def)
qed

theorem cascading_stage_sizes_witness:
  "(0::int) \<le> 1
   \<and> cascade_stage1 (ensemble_init ''cascading'') ''u1'' [''a'', ''b'', ''c'', ''d''] 1
       = [''a'', ''b'', ''c'']
   \<and> cascade_stage2 (ensemble_init ''cascading'') ''u1'' [''a'', ''b'', ''c''] 1
       = Inr [''a'', ''b'', ''c'']"
  using cascading_stage_sizes [of 1 "ensemble_init ''cascading''" "''u1''"
      "[''a'', ''b'', ''c'', ''d'']" "[''a'', ''b'', ''c'']"]
  by (simp add: ensemble_init_def initial_ready_def)

text \<open>
  The claim as stated fails when the graph model is not ready: with four candidates
  and \<open>top_k = 1\<close> the first stage holds the first three candidates, not the full
  list.
\<close>

theorem cascading_fallback_counterexample:
  "\<not> r_gnn (models_ready (ensemble_init ''cascading''))
   \<and> cascade_stage1 (ensemble_init ''cascading'') ''u1'' [''a'', ''b'', ''c'', ''d''] 1
       = [''a'', ''b'', ''c'']
   \<and> [''a'', ''b'', ''c''] \<noteq> [''a'', ''b'', ''c'', ''d'']"
  by (simp add: cascade_stage1_def ensemble_init_def initial_ready_def py_take_def)

text \<open>
  Claim C4. A session whose \<open>max_participants\<close> is 0 makes the content scoring divide
  by zero: \<open>recommend_sessions\<close> leaves with \<open>ZeroDivisionError\<close> instead of
  returning a list. An empty candidate list does give an empty result.
\<close>

theorem recommend_sessions_zero_capacity:
  "recommend_sessions (ensemble_init ''context_aware'') ''u1'' plain_user [session_of ''s1'' 0] 10
     = (Inl ZeroDivisionError, ensemble_init ''context_aware'')"
  by (simp add: recommend_sessions_def content_recommend_sessions_def session_score_def
      bind_err_def session_of_def get_or_def empty_item_def)

lemma recommend_empty:
  "recommend_mentors s user_id u [] top_k = (Inr [], s)"
  "recommend_sessions s user_id u [] top_k = (Inr [], s)"
  "recommend_groups s user_id u [] top_k = (Inr [], s)"
  by (simp_all add: recommend_mentors_def recommend_sessions_def recommend_groups_def)

theorem recommend_keeps_weights_witness:
  "weights (snd (recommend_groups (ensemble_init ''context_aware'') ''u1'' plain_user
      [empty_item\<lparr>doc_id := ''g1''\<rparr>] 10)) = default_weights"
  using recommend_keeps_weights [of "ensemble_init ''context_aware''" "''u1''" plain_user
      "[empty_item\<lparr>doc_id := ''g1''\<rparr>]" 10]
  by (simp add: ensemble_init_def)

section \<open>Score ranges of the recommend operations\<close>

lemma unit_dict_lookup: "unit_dict d \<Longrightarrow> map_of d i = Some v \<Longrightarrow> 0 \<le> v \<and> v \<le> 1"
  by (auto simp: unit_dict_def list_all_iff dest: map_of_SomeD)

lemma unit_dict_normalize: "unit_dict (normalize_scores scores)"
  using normalize_scores_range [of _ _ scores] by (auto simp: unit_dict_def list_all_iff)

lemma add_model_inv:
  assumes "0 \<le> w" "unit_dict d" "0 \<le> fst acc" "fst acc \<le> snd acc"
  shows "0 \<le> fst (add_model r w d i acc) \<and> fst (add_model r w d i acc) \<le> snd (add_model r w d i acc)"
proof (cases "map_of d i")
  case None
  then show ?thesis using assms by (simp add: add_model_def)
next
  case (Some v)
  then have v: "0 \<le> v" "v \<le> 1" using unit_dict_lookup [OF assms(2)] by auto
  have "w * v \<le> w" using assms(1) v by (simp add: mult_left_le)
  moreover have "0 \<le> w * v" using assms(1) v by simp
  ultimately show ?thesis using assms Some by (simp add: add_model_def)
qed

lemma weighted_score_range:
  assumes "weights_nonneg w" "unit_dict c" "unit_dict cf" "unit_dict g"
  shows "0 \<le> weighted_score w r c cf g i \<and> weighted_score w r c cf g i \<le> 1"
proof -
  define a1 where "a1 = add_model (r_content r) (w_content w) c i (0, 0)"
  define a2 where "a2 = add_model (r_collaborative r) (w_collaborative w) cf i a1"
  define a3 where "a3 = add_model (r_gnn r) (w_gnn w) g i a2"
  have w: "0 \<le> w_content w" "0 \<le> w_collaborative w" "0 \<le> w_gnn w"
    using assms(1) by (simp_all add: weights_nonneg_def)
  have i1: "0 \<le> fst a1 \<and> fst a1 \<le> snd a1"
    unfolding a1_def by (rule add_model_inv [OF w(1) assms(2)]) simp_all
  have i2: "0 \<le> fst a2 \<and> fst a2 \<le> snd a2"
    unfolding a2_def using i1 by (intro add_model_inv [OF w(2) assms(3)]) simp_all
  have i3: "0 \<le> fst a3 \<and> fst a3 \<le> snd a3"
    unfolding a3_def using i2 by (intro add_model_inv [OF w(3) assms(4)]) simp_all
  have e: "weighted_score w r c cf g i = (if snd a3 > 0 then fst a3 / snd a3 else fst a3)"
    by (simp add: weighted_score_def a1_def a2_def a3_def Let_def)
  show ?thesis
  proof (cases "snd a3 > 0")
    case True
    then show ?thesis using i3 by (simp add: e)
  next
    case False
    then have "fst a3 = 0" using i3 by simp
    then show ?thesis using False by (simp add: e)
  qed
qed

lemma unit_dict_weighted_ensemble:
  assumes "weights_nonneg w" "unit_dict c" "unit_dict cf" "unit_dict g"
  shows "unit_dict (weighted_ensemble w r c cf g)"
  using weighted_score_range [OF assms]
  by (simp add: unit_dict_def weighted_ensemble_def list_all_iff)

lemma unit_dict_ranked: "unit_dict d \<Longrightarrow> unit_dict (py_take k (sort_desc d))"
  using set_py_take [of k "sort_desc d"]
  by (auto simp: unit_dict_def list_all_iff sort_desc_def)

lemma scores_in_unit_add_explanations:
  "unit_dict ranked \<Longrightarrow> scores_in_unit (add_explanations u cands t ranked)"
  by (auto simp: unit_dict_def scores_in_unit_def add_explanations_def list_all_iff)

lemma routing_weights_nonneg: "weights_nonneg (context_aware_routing u t)"
  using routing_nonneg [of u t] by (simp add: weights_nonneg_def)

lemma unit_dict_context_aware_fusion:
  assumes "unit_dict c" "unit_dict cf" "unit_dict g"
  shows "unit_dict (fst (context_aware_fusion s u t c cf g))"
  using unit_dict_weighted_ensemble [OF routing_weights_nonneg assms]
  by (simp add: context_aware_fusion_def Let_def)

lemma unit_dict_cf:
  assumes "cf_score_dict s user_id ids = Inr d"
  shows "unit_dict d"
  using assms unit_dict_normalize
  by (auto simp: cf_score_dict_def bind_err_def unit_dict_def split: if_splits sum.splits)

lemma unit_dict_gnn: "unit_dict (gnn_score_dict s user_id ids)"
  using unit_dict_normalize by (auto simp: gnn_score_dict_def unit_dict_def)

lemma dot_self_nonneg: "0 \<le> dot a a"
  by (induction a) (simp_all add: dot_def)

lemma cross_term_bound:
  fixes x y d p q :: real
  assumes "d\<^sup>2 \<le> p * q" "0 \<le> p" "0 \<le> q"
  shows "2 * (x * y * d) \<le> x\<^sup>2 * q + y\<^sup>2 * p"
proof -
  have "(2 * (x * y * d))\<^sup>2 = 4 * (x\<^sup>2 * y\<^sup>2) * d\<^sup>2"
    by (simp add: power2_eq_square)
  also have "\<dots> \<le> 4 * (x\<^sup>2 * y\<^sup>2) * (p * q)"
    using assms(1) by (intro mult_left_mono) simp_all
  also have "\<dots> \<le> (x\<^sup>2 * q + y\<^sup>2 * p)\<^sup>2"
    using zero_le_power2 [of "x\<^sup>2 * q - y\<^sup>2 * p"]
    by (simp add: power2_eq_square algebra_simps)
  finally have "(2 * (x * y * d))\<^sup>2 \<le> (x\<^sup>2 * q + y\<^sup>2 * p)\<^sup>2" .
  moreover have "0 \<le> x\<^sup>2 * q + y\<^sup>2 * p"
    using assms(2,3) by simp
  ultimately show ?thesis
    by (rule power2_le_imp_le)
qed

lemma dot_cauchy_schwarz:
  assumes "length a = length b"
  shows "(dot a b)\<^sup>2 \<le> dot a a * dot b b"
  using assms
proof (induction a b rule: list_induct2)
  case Nil
  then show ?case by (simp add: dot_def)
next
  case (Cons x xs y ys)
  have c: "2 * (x * y * dot xs ys) \<le> x\<^sup>2 * dot ys ys + y\<^sup>2 * dot xs xs"
    by (rule cross_term_bound [OF Cons.IH dot_self_nonneg dot_self_nonneg])
  have "(dot (x # xs) (y # ys))\<^sup>2 = (x * y)\<^sup>2 + 2 * (x * y * dot xs ys) + (dot xs ys)\<^sup>2"
    by (simp add: dot_def power2_eq_square algebra_simps)
  also have "\<dots> \<le> (x * y)\<^sup>2 + (x\<^sup>2 * dot ys ys + y\<^sup>2 * dot xs xs) + dot xs xs * dot ys ys"
    using c Cons.IH by simp
  also have "\<dots> = dot (x # xs) (x # xs) * dot (y # ys) (y # ys)"
    by (simp add: dot_def power2_eq_square algebra_simps)
  finally show ?case .
qed

lemma dot_scale: "dot (map (\<lambda>x. x / p) a) (map (\<lambda>x. x / q) b) = dot a b / (p * q)"
proof (induction a arbitrary: b)
  case Nil
  then show ?case by (simp add: dot_def)
next
  case (Cons x xs)
  show ?case
  proof (cases b)
    case Nil
    then show ?thesis by (simp add: dot_def)
  next
    case (Cons y ys)
    have "dot (map (\<lambda>x. x / p) xs) (map (\<lambda>x. x / q) ys) = dot xs ys / (p * q)"
      by (rule Cons.IH)
    then show ?thesis
      using Cons by (simp add: dot_def add_divide_distrib)
  qed
qed

lemma row_norm_pos: "0 < row_norm a"
  using dot_self_nonneg [of a] by (simp add: row_norm_def Let_def less_le)

lemma dot_le_norms:
  assumes "length a = length b"
  shows "dot a b \<le> row_norm a * row_norm b"
proof -
  have cs: "(dot a b)\<^sup>2 \<le> dot a a * dot b b"
    using assms by (rule dot_cauchy_schwarz)
  show ?thesis
  proof (cases "dot a a = 0 \<or> dot b b = 0")
    case True
    then have "(dot a b)\<^sup>2 \<le> 0" using cs by auto
    then have "dot a b = 0" by simp
    then show ?thesis
      using row_norm_pos [of a] row_norm_pos [of b] by simp
  next
    case False
    then have na: "row_norm a = sqrt (dot a a)" and nb: "row_norm b = sqrt (dot b b)"
      by (simp_all add: row_norm_def Let_def)
    have "dot a b \<le> \<bar>dot a b\<bar>" by simp
    also have "\<dots> = sqrt ((dot a b)\<^sup>2)" by simp
    also have "\<dots> \<le> sqrt (dot a a * dot b b)"
      using cs by (rule real_sqrt_le_mono)
    also have "\<dots> = row_norm a * row_norm b"
      by (simp add: na nb real_sqrt_mult)
    finally show ?thesis .
  qed
qed

lemma cosine_similarity_le_one:
  assumes "length a = length b"
  shows "cosine_similarity a b \<le> 1"
proof -
  have "0 < row_norm a * row_norm b"
    using row_norm_pos [of a] row_norm_pos [of b] by simp
  then show ?thesis
    using dot_le_norms [OF assms] by (simp add: cosine_similarity_def dot_scale)
qed

lemma calculate_similarity_range:
  "0 \<le> calculate_similarity p1 p2 \<and> calculate_similarity p1 p2 \<le> 1"
proof -
  let ?n = "min (length p1) (length p2)"
  let ?a = "if length p1 \<noteq> length p2 then take ?n p1 else p1"
  let ?b = "if length p1 \<noteq> length p2 then take ?n p2 else p2"
  have "length ?a = length ?b" by simp
  then have "cosine_similarity ?a ?b \<le> 1" by (rule cosine_similarity_le_one)
  then show ?thesis
    by (simp add: calculate_similarity_def Let_def)
qed

lemma mentor_score_range:
  assumes "0 \<le> get_or (success_rate c) (8/10)" "get_or (success_rate c) (8/10) \<le> 1"
  shows "0 \<le> mentor_score u c \<and> mentor_score u c \<le> 1"
  using assms calculate_similarity_range [of "build_user_profile u" "build_mentor_profile c"]
  by (simp add: mentor_score_def Let_def)

lemma mentor_score_lower: "get_or (success_rate c) (8/10) * (2/10) \<le> mentor_score u c"
  using calculate_similarity_range [of "build_user_profile u" "build_mentor_profile c"]
  by (simp add: mentor_score_def Let_def)

lemma unit_dict_content_mentors:
  assumes "mentors_well_formed xs"
  shows "unit_dict (content_recommend_mentors u xs k)"
proof -
  have "unit_dict (map (\<lambda>mentor. (doc_id mentor, mentor_score u mentor)) xs)"
    using assms mentor_score_range [of _ u]
    by (auto simp: unit_dict_def mentors_well_formed_def list_all_iff)
  then show ?thesis
    unfolding content_recommend_mentors_def by (rule unit_dict_ranked)
qed

lemma cascade_stage3_mentors:
  assumes "cascade_stage3 u items ids k = Inr res" "mentors_well_formed items"
  shows "unit_dict res"
proof -
  let ?data = "filter (\<lambda>item. doc_id item \<in> set ids) items"
  have wf: "mentors_well_formed ?data"
    using assms(2) by (simp add: mentors_well_formed_def list_all_iff)
  show ?thesis
  proof (cases ?data)
    case Nil
    then have "res = map (\<lambda>cid. (cid, 1/2)) (py_take k ids)"
      using assms(1) by (simp add: cascade_stage3_def)
    then show ?thesis by (simp add: unit_dict_def list_all_iff)
  next
    case (Cons first rest)
    then have "first \<in> set ?data" by simp
    then have "domains first \<noteq> None"
      using wf unfolding mentors_well_formed_def list_all_iff by blast
    then have "res = content_recommend_mentors u ?data k"
      using assms(1) Cons by (auto simp: cascade_stage3_def Let_def)
    then show ?thesis using unit_dict_content_mentors [OF wf] by simp
  qed
qed

lemma cascading_ensemble_mentors:
  assumes "cascading_ensemble s user_id ids u items k = Inr res" "mentors_well_formed items"
  shows "unit_dict res"
proof -
  from assms(1) obtain ids2 where "cascade_stage3 u items ids2 k = Inr res"
    by (auto simp: cascading_ensemble_def bind_err_def split: sum.splits)
  then show ?thesis using assms(2) by (rule cascade_stage3_mentors)
qed

lemma fused_unit:
  assumes "weights_nonneg (weights s)" "unit_dict c" "unit_dict cf" "unit_dict g"
    and "(if ensemble_method s = ''context_aware''
          then context_aware_fusion s u t c cf g
          else (weighted_ensemble (weights s) (models_ready s) c cf g, s)) = (final, s')"
  shows "unit_dict final"
proof (cases "ensemble_method s = ''context_aware''")
  case True
  then have "final = fst (context_aware_fusion s u t c cf g)"
    using assms(5) by (metis fst_conv)
  then show ?thesis using unit_dict_context_aware_fusion [OF assms(2-4)] by simp
next
  case False
  then have "final = weighted_ensemble (weights s) (models_ready s) c cf g"
    using assms(5) by auto
  then show ?thesis using unit_dict_weighted_ensemble [OF assms(1-4)] by simp
qed

lemma recommend_sessions_unit:
  assumes "weights_nonneg (weights s)"
    and "recommend_sessions s user_id u cands k = (Inr res, s')"
  shows "scores_in_unit res"
proof (cases "cands = []")
  case True
  then show ?thesis using assms(2) by (auto simp: recommend_sessions_def scores_in_unit_def)
next
  case False
  from assms(2) False obtain content_recs cf_scores final where
    cf: "cf_score_dict s user_id (map doc_id cands) = Inr cf_scores"
    and f: "(if ensemble_method s = ''context_aware''
              then context_aware_fusion s u ''session'' (normalize_scores content_recs) cf_scores
                     (gnn_score_dict s user_id (map doc_id cands))
              else (weighted_ensemble (weights s) (models_ready s) (normalize_scores content_recs)
                      cf_scores (gnn_score_dict s user_id (map doc_id cands)), s)) = (final, s')"
    and r: "res = add_explanations u cands ''session'' (py_take k (sort_desc final))"
    by (auto simp: recommend_sessions_def Let_def split: sum.splits prod.splits)
  have "unit_dict final"
    using assms(1) unit_dict_normalize unit_dict_cf [OF cf] unit_dict_gnn f by (rule fused_unit)
  then show ?thesis
    unfolding r by (intro scores_in_unit_add_explanations unit_dict_ranked)
qed

lemma recommend_groups_unit:
  assumes "weights_nonneg (weights s)"
    and "recommend_groups s user_id u cands k = (Inr res, s')"
  shows "scores_in_unit res"
proof (cases "cands = []")
  case True
  then show ?thesis using assms(2) by (auto simp: recommend_groups_def scores_in_unit_def)
next
  case False
  let ?c = "normalize_scores (content_recommend_groups u cands (int (length cands)))"
  from assms(2) False obtain cf_scores final where
    cf: "cf_score_dict s user_id (map doc_id cands) = Inr cf_scores"
    and f: "(if ensemble_method s = ''context_aware''
              then context_aware_fusion s u ''group'' ?c cf_scores
                     (gnn_score_dict s user_id (map doc_id cands))
              else (weighted_ensemble (weights s) (models_ready s) ?c
                      cf_scores (gnn_score_dict s user_id (map doc_id cands)), s)) = (final, s')"
    and r: "res = add_explanations u cands ''group'' (py_take k (sort_desc final))"
    by (auto simp: recommend_groups_def Let_def split: sum.splits prod.splits)
  have "unit_dict final"
    using assms(1) unit_dict_normalize unit_dict_cf [OF cf] unit_dict_gnn f by (rule fused_unit)
  then show ?thesis
    unfolding r by (intro scores_in_unit_add_explanations unit_dict_ranked)
qed

lemma recommend_mentors_unit:
  assumes "weights_nonneg (weights s)"
    and "recommend_mentors s user_id u cands k = (Inr res, s')"
    and "ensemble_method s = ''cascading'' \<longrightarrow> mentors_well_formed cands"
  shows "scores_in_unit res"
proof (cases "cands = []")
  case True
  then show ?thesis using assms(2) by (auto simp: recommend_mentors_def scores_in_unit_def)
next
  case False
  let ?c = "normalize_scores (content_recommend_mentors u cands (int (length cands)))"
  let ?g = "gnn_score_dict s user_id (map doc_id cands)"
  from assms(2) False obtain cf_scores where
    cf: "cf_score_dict s user_id (map doc_id cands) = Inr cf_scores"
    by (auto simp: recommend_mentors_def Let_def split: sum.splits)
  show ?thesis
  proof (cases "ensemble_method s = ''cascading''")
    case True
    then obtain recs where
      c: "cascading_ensemble s user_id (map doc_id cands) u cands k = Inr recs"
      and r: "res = add_explanations u cands ''mentor'' recs"
      using assms(2) False cf
      by (auto simp: recommend_mentors_def Let_def split: sum.splits)
    have "unit_dict recs"
      using c assms(3) True by (auto intro: cascading_ensemble_mentors)
    then show ?thesis unfolding r by (rule scores_in_unit_add_explanations)
  next
    case nc: False
    define final where "final =
        (if ensemble_method s = ''weighted''
         then weighted_ensemble (weights s) (models_ready s) ?c cf_scores ?g
         else if ensemble_method s = ''context_aware''
         then fst (context_aware_fusion s u ''mentor'' ?c cf_scores ?g)
         else ?c)"
    have r: "res = add_explanations u cands ''mentor'' (py_take k (sort_desc final))"
      using assms(2) False cf nc
      by (auto simp: recommend_mentors_def Let_def final_def split: prod.splits if_splits)
    have "unit_dict final"
      unfolding final_def
      by (simp add: unit_dict_weighted_ensemble [OF assms(1)] unit_dict_context_aware_fusion
          unit_dict_normalize unit_dict_cf [OF cf] unit_dict_gnn)
    then show ?thesis
      unfolding r by (intro scores_in_unit_add_explanations unit_dict_ranked)
  qed
qed

text \<open>
  Claim C3, as amended. With non-negative stored weights, every triple returned by
  \<open>recommend_sessions\<close> and \<open>recommend_groups\<close> under any method, and by
  \<open>recommend_mentors\<close> under any method other than cascading, has a score in [0,1].
  Under cascading \<open>recommend_mentors\<close> returns the content scores as they are, and
  they lie in [0,1] when every candidate is a mentor profile with a success rate in
  [0,1].
\<close>

theorem recommend_scores_in_unit_interval:
  assumes "weights_nonneg (weights s)"
  shows "(recommend_sessions s user_id u candidates top_k = (Inr res, s') \<longrightarrow> scores_in_unit res)
       \<and> (recommend_groups s user_id u candidates top_k = (Inr res, s') \<longrightarrow> scores_in_unit res)
       \<and> (recommend_mentors s user_id u candidates top_k = (Inr res, s') \<longrightarrow>
            (ensemble_method s = ''cascading'' \<longrightarrow> mentors_well_formed candidates) \<longrightarrow>
            scores_in_unit res)"
  using recommend_sessions_unit [OF assms] recommend_groups_unit [OF assms]
    recommend_mentors_unit [OF assms]
  by blast

theorem recommend_scores_in_unit_interval_witness:
  "weights_nonneg (weights (ensemble_init ''cascading''))
   \<and> mentors_well_formed [mentor_of ''m1'' (9/10)]
   \<and> recommend_mentors (ensemble_init ''cascading'') ''u1'' plain_user [mentor_of ''m1'' (9/10)] 10
       = (Inr [(''m1'', mentor_score plain_user (mentor_of ''m1'' (9/10)),
                explain_recommendation plain_user (mentor_of ''m1'' (9/10)) ''mentor'')],
          ensemble_init ''cascading'')
   \<and> 0 \<le> mentor_score plain_user (mentor_of ''m1'' (9/10))
   \<and> mentor_score plain_user (mentor_of ''m1'' (9/10)) \<le> 1"
proof -
  have w: "weights_nonneg (weights (ensemble_init ''cascading''))"
    by (simp add: weights_nonneg_def ensemble_init_def default_weights_def)
  have m: "mentors_well_formed [mentor_of ''m1'' (9/10)]"
    by (simp add: mentors_well_formed_def mentor_of_def get_or_def)
  have e: "recommend_mentors (ensemble_init ''cascading'') ''u1'' plain_user [mentor_of ''m1'' (9/10)] 10
       = (Inr [(''m1'', mentor_score plain_user (mentor_of ''m1'' (9/10)),
                explain_recommendation plain_user (mentor_of ''m1'' (9/10)) ''mentor'')],
          ensemble_init ''cascading'')"
    by (simp add: recommend_mentors_def cf_score_dict_def cascading_ensemble_def cascade_stage1_def
        cascade_stage2_def cascade_stage3_def content_recommend_mentors_def add_explanations_def
        candidate_data_def bind_err_def py_take_def sort_desc_def ensemble_init_def
        initial_ready_def mentor_of_def)
  from recommend_scores_in_unit_interval [OF w, of "''u1''" plain_user "[mentor_of ''m1'' (9/10)]" 10
      "[(''m1'', mentor_score plain_user (mentor_of ''m1'' (9/10)),
         explain_recommendation plain_user (mentor_of ''m1'' (9/10)) ''mentor'')]"
      "ensemble_init ''cascading''"] e m
  have "scores_in_unit [(''m1'', mentor_score plain_user (mentor_of ''m1'' (9/10)),
         explain_recommendation plain_user (mentor_of ''m1'' (9/10)) ''mentor'')]"
    by blast
  then show ?thesis using w m e by (simp add: scores_in_unit_def)
qed

text \<open>
  The claim as stated fails under cascading, where the content score
  \<open>0.8 * similarity + 0.2 * success_rate\<close> is returned without normalisation: a
  mentor whose success rate is stored as the percentage 85 gets a score above 1.
\<close>

theorem cascading_raw_score_counterexample:
  "recommend_mentors (ensemble_init ''cascading'') ''u1'' plain_user [mentor_of ''m1'' 85] 10
       = (Inr [(''m1'', mentor_score plain_user (mentor_of ''m1'' 85),
                explain_recommendation plain_user (mentor_of ''m1'' 85) ''mentor'')],
          ensemble_init ''cascading'')
   \<and> 1 < mentor_score plain_user (mentor_of ''m1'' 85)"
proof -
  have e: "recommend_mentors (ensemble_init ''cascading'') ''u1'' plain_user [mentor_of ''m1'' 85] 10
       = (Inr [(''m1'', mentor_score plain_user (mentor_of ''m1'' 85),
                explain_recommendation plain_user (mentor_of ''m1'' 85) ''mentor'')],
          ensemble_init ''cascading'')"
    by (simp add: recommend_mentors_def cf_score_dict_def cascading_ensemble_def cascade_stage1_def
        cascade_stage2_def cascade_stage3_def content_recommend_mentors_def add_explanations_def
        candidate_data_def bind_err_def py_take_def sort_desc_def ensemble_init_def
        initial_ready_def mentor_of_def)
  have "get_or (success_rate (mentor_of ''m1'' 85)) (8/10) * (2/10) \<le> mentor_score plain_user (mentor_of ''m1'' 85)"
    by (rule mentor_score_lower)
  then have "1 < mentor_score plain_user (mentor_of ''m1'' 85)"
    by (simp add: mentor_of_def get_or_def)
  then show ?thesis using e by simp
qed

section \<open>Training establishes the invariant\<close>

lemma enumerate_ids_range: "(u, i) \<in> set (enumerate_ids ids) \<Longrightarrow> i < length (enumerate_ids ids)"
  by (auto simp: enumerate_ids_def Let_def dest: set_zip_rightD)

lemma enumerate_ids_keys: "set (map fst (enumerate_ids ids)) = set ids"
  by (simp add: enumerate_ids_def Let_def)

lemma enumerate_ids_distinct: "distinct (map fst (enumerate_ids ids))"
  by (simp add: enumerate_ids_def Let_def)

lemma train_trained_ok:
  assumes "interactions \<noteq> []"
  shows "trained_ok (train m interactions fit)"
  using assms
  by (auto simp: train_def trained_ok_def Let_def dest: enumerate_ids_range)

lemma train_cf_inv:
  assumes "cf_inv m"
  shows "cf_inv (train m interactions fit)"
proof (cases "interactions = []")
  case True
  then show ?thesis
    using assms
    by (auto simp: train_def cf_inv_def trained_ok_def Let_def enumerate_ids_def split: option.splits)
next
  case False
  then show ?thesis by (simp add: cf_inv_def train_trained_ok)
qed

lemma cf_init_inv: "cf_inv cf_init"
  by (simp add: cf_inv_def cf_init_def)

lemma train_example: "train cf_init example_interactions example_fit = trained_example"
  apply (simp add: train_def example_interactions_def example_fit_def cf_init_def trained_example_def
      enumerate_ids_def matrix_data_def mean_def interaction_value_def interaction_weights_def get_or_def
      Let_def)
  done

section \<open>When the recommend operations return\<close>

lemma cf_score_dict_total:
  assumes "cf_inv (collaborative s)"
  shows "\<exists>d. cf_score_dict s user_id ids = Inr d"
proof -
  obtain r where "recommend_items (collaborative s) user_id ids (int (length ids)) = Inr r"
    using recommend_items_total [OF assms] by blast
  then show ?thesis by (simp add: cf_score_dict_def bind_err_def)
qed

lemma recommend_returns:
  assumes "cf_inv (collaborative s)" "no_zero_capacity candidates"
  shows "\<exists>res. fst (recommend_mentors s user_id u candidates top_k) = Inr res"
    and "\<exists>res. fst (recommend_sessions s user_id u candidates top_k) = Inr res"
    and "\<exists>res. fst (recommend_groups s user_id u candidates top_k) = Inr res"
proof -
  obtain d where d: "cf_score_dict s user_id (map doc_id candidates) = Inr d"
    using cf_score_dict_total [OF assms(1)] by blast
  obtain recs where c: "cascading_ensemble s user_id (map doc_id candidates) u candidates top_k = Inr recs"
    using cascading_ensemble_total [OF assms] by blast
  obtain cs where cs: "content_recommend_sessions u candidates (int (length candidates)) = Inr cs"
    using content_recommend_sessions_total [OF assms(2)] by blast
  show "\<exists>res. fst (recommend_mentors s user_id u candidates top_k) = Inr res"
    by (simp add: recommend_mentors_def d c Let_def split: prod.splits)
  show "\<exists>res. fst (recommend_sessions s user_id u candidates top_k) = Inr res"
    by (simp add: recommend_sessions_def d cs Let_def split: prod.splits)
  show "\<exists>res. fst (recommend_groups s user_id u candidates top_k) = Inr res"
    by (simp add: recommend_groups_def d Let_def split: prod.splits)
qed

end
